theory Spec2Isabelle
  imports Main "HOL-Library.Word"
begin

section \<open>Primitive types and library functions\<close>

text \<open>
  Go's \<open>uint64\<close> and \<open>int64\<close> are 64-bit words: \<open>+\<close> and \<open>-\<close> wrap around,
  \<open>unat\<close> reads a word as unsigned and \<open>sint\<close> as two's complement. Go strings and
  byte slices are byte sequences, modelled as \<open>string\<close>; the conversion
  \<open>[]byte(s)\<close> is the identity.
\<close>

type_synonym u64 = "64 word"
type_synonym i64 = "64 word"

text \<open>
  SHA-256 and Ed25519 come from Go's standard library, not from this repository. They
  are parameters of the model: every function that hashes, signs or verifies takes the
  record of primitives as its first argument.
\<close>

record crypto =
  sha256 :: "string \<Rightarrow> string"
  ed25519_public :: "string \<Rightarrow> string"
  ed25519_sign :: "string \<Rightarrow> string \<Rightarrow> string"
  ed25519_verify :: "string \<Rightarrow> string \<Rightarrow> string \<Rightarrow> bool"

definition PublicKeySize :: nat where
  "PublicKeySize = 32"

definition SignatureSize :: nat where
  "SignatureSize = 64"

text \<open>\<open>encoding/hex\<close>: lower-case encoding; decoding accepts both cases and fails on
  an odd length or a character that is no hexadecimal digit.\<close>

definition hexdigit :: "nat \<Rightarrow> char" where
  "hexdigit n = (if n < 10 then char_of (48 + n) else char_of (87 + n))"

definition EncodeToString :: "string \<Rightarrow> string" where
  "EncodeToString bs =
     concat (map (\<lambda>b. [hexdigit ((of_char b :: nat) div 16), hexdigit ((of_char b :: nat) mod 16)]) bs)"

definition fromHexChar :: "char \<Rightarrow> nat option" where
  "fromHexChar c =
     (let n = (of_char c :: nat) in
      if 48 \<le> n \<and> n \<le> 57 then Some (n - 48)
      else if 97 \<le> n \<and> n \<le> 102 then Some (n - 97 + 10)
      else if 65 \<le> n \<and> n \<le> 70 then Some (n - 65 + 10)
      else None)"

fun DecodeString :: "string \<Rightarrow> string option" where
  "DecodeString [] = Some []"
| "DecodeString [a] = None"
| "DecodeString (a # b # rest) =
     (case fromHexChar a of
        None \<Rightarrow> None
      | Some x \<Rightarrow>
          (case fromHexChar b of
             None \<Rightarrow> None
           | Some y \<Rightarrow>
               (case DecodeString rest of
                  None \<Rightarrow> None
                | Some bs \<Rightarrow> Some (char_of (x * 16 + y) # bs))))"

text \<open>The verb \<open>%d\<close> of \<open>fmt.Sprintf\<close>: decimal digits, with a minus sign for a
  negative \<open>int64\<close>.\<close>

fun decimal :: "nat \<Rightarrow> string" where
  "decimal n =
     (if n < 10 then [char_of (48 + n)]
      else decimal (n div 10) @ [char_of (48 + n mod 10)])"

declare decimal.simps [simp del]

definition fmt_u64 :: "u64 \<Rightarrow> string" where
  "fmt_u64 w = decimal (unat w)"

definition fmt_i64 :: "i64 \<Rightarrow> string" where
  "fmt_i64 w =
     (if sint w < 0 then CHR ''-'' # decimal (nat (- sint w)) else decimal (nat (sint w)))"

section \<open>Package crypto\<close>

definition Hash :: "crypto \<Rightarrow> string \<Rightarrow> string" where
  "Hash c data = sha256 c data"

definition HashString :: "crypto \<Rightarrow> string \<Rightarrow> string" where
  "HashString c data = EncodeToString (Hash c data)"

definition PublicKeyToAddress :: "crypto \<Rightarrow> string \<Rightarrow> string" where
  "PublicKeyToAddress c publicKey = EncodeToString (take 20 (Hash c publicKey))"

definition PublicKeyFromHex :: "string \<Rightarrow> string option" where
  "PublicKeyFromHex hexKey =
     (case DecodeString hexKey of
        None \<Rightarrow> None
      | Some bytes \<Rightarrow> if length bytes \<noteq> PublicKeySize then None else Some bytes)"

definition PublicKeyToHex :: "string \<Rightarrow> string" where
  "PublicKeyToHex publicKey = EncodeToString publicKey"

definition Sign :: "crypto \<Rightarrow> string \<Rightarrow> string \<Rightarrow> string" where
  "Sign c privateKey data = ed25519_sign c privateKey data"

definition Verify :: "crypto \<Rightarrow> string \<Rightarrow> string \<Rightarrow> string \<Rightarrow> bool" where
  "Verify c publicKey data signature = ed25519_verify c publicKey data signature"

definition SignatureToHex :: "string \<Rightarrow> string" where
  "SignatureToHex signature = EncodeToString signature"

definition SignatureFromHex :: "string \<Rightarrow> string option" where
  "SignatureFromHex hexSig =
     (case DecodeString hexSig of
        None \<Rightarrow> None
      | Some signature \<Rightarrow> if length signature \<noteq> SignatureSize then None else Some signature)"

section \<open>Errors\<close>

text \<open>
  The Go code builds its errors with \<open>fmt.Errorf\<close>; each message is a constructor, and
  a wrapped error (\<open>%w\<close>) is an argument of the wrapping one. A run-time panic is not a
  returned error and has an outcome of its own.
\<close>

datatype error =
    TransactionNotSigned
  | InvalidPublicKey
  | FromAddressMismatch
  | InvalidSignatureEncoding
  | InvalidSignature
  | InsufficientBalance u64 u64
  | FailedToApplyTransaction string error
  | InvalidBlockIndex u64 u64
  | InvalidPreviousHash
  | InvalidBlockHash
  | InvalidBlockTransaction string error
  | InvalidBlock error
  | FailedToApplyBlock error
  | InvalidTransaction error
  | TransactionAlreadyExists
  | NoValidatorsAvailable
  | NoEligibleValidators

datatype panic = NilPointerDereference | DivisionByZero

text \<open>The outcome \<open>Blocked\<close> is that of a call which waits for a mutex that will never
  be released: the call never returns.\<close>

datatype 'a result = Blocked | Panic panic | Err error | Ok 'a

section \<open>Transactions\<close>

record Transaction =
  ID :: string
  From :: string
  To :: string
  Amount :: u64
  Fee :: u64
  Timestamp :: i64
  Signature :: string
  PublicKey :: string

definition calculateID :: "crypto \<Rightarrow> Transaction \<Rightarrow> string" where
  "calculateID c tx =
     HashString c (From tx @ To tx @ fmt_u64 (Amount tx) @ fmt_u64 (Fee tx) @ fmt_i64 (Timestamp tx))"

text \<open>\<open>NewTransaction\<close> reads the clock; the reading is the argument \<open>now\<close>.\<close>

definition NewTransaction :: "crypto \<Rightarrow> i64 \<Rightarrow> string \<Rightarrow> string \<Rightarrow> u64 \<Rightarrow> u64 \<Rightarrow> Transaction" where
  "NewTransaction c now from to amount fee =
     (let tx = \<lparr>ID = [], From = from, To = to, Amount = amount, Fee = fee,
                Timestamp = now, Signature = [], PublicKey = []\<rparr>
      in tx\<lparr>ID := calculateID c tx\<rparr>)"

definition dataToSign :: "Transaction \<Rightarrow> string" where
  "dataToSign tx =
     ID tx @ From tx @ To tx @ fmt_u64 (Amount tx) @ fmt_u64 (Fee tx) @ fmt_i64 (Timestamp tx)"

definition SignTx :: "crypto \<Rightarrow> string \<Rightarrow> Transaction \<Rightarrow> Transaction" where
  "SignTx c privateKey tx =
     (let publicKey = ed25519_public c privateKey;
          tx1 = tx\<lparr>PublicKey := PublicKeyToHex publicKey\<rparr>;
          data = dataToSign tx1;
          signature = Sign c privateKey data
      in tx1\<lparr>Signature := SignatureToHex signature\<rparr>)"

definition VerifyTx :: "crypto \<Rightarrow> Transaction \<Rightarrow> error option" where
  "VerifyTx c tx =
     (if Signature tx = [] then Some TransactionNotSigned
      else case PublicKeyFromHex (PublicKey tx) of
        None \<Rightarrow> Some InvalidPublicKey
      | Some publicKey \<Rightarrow>
          if From tx \<noteq> PublicKeyToAddress c publicKey then Some FromAddressMismatch
          else case SignatureFromHex (Signature tx) of
            None \<Rightarrow> Some InvalidSignatureEncoding
          | Some signature \<Rightarrow>
              if \<not> Verify c publicKey (dataToSign tx) signature then Some InvalidSignature
              else None)"

definition IsCoinbase :: "Transaction \<Rightarrow> bool" where
  "IsCoinbase tx \<longleftrightarrow> From tx = []"

section \<open>Blocks\<close>

record Block =
  Index :: u64
  BlockTimestamp :: i64
  Transactions :: "Transaction list"
  PrevHash :: string
  BlockHash :: string
  Validator :: string
  BlockSignature :: string

definition calculateHash :: "crypto \<Rightarrow> Block \<Rightarrow> string" where
  "calculateHash c b =
     HashString c
       (fold (\<lambda>tx data. data @ ID tx) (Transactions b)
          (fmt_u64 (Index b) @ fmt_i64 (BlockTimestamp b) @ PrevHash b @ Validator b))"

definition NewBlock :: "crypto \<Rightarrow> i64 \<Rightarrow> u64 \<Rightarrow> Transaction list \<Rightarrow> string \<Rightarrow> string \<Rightarrow> Block" where
  "NewBlock c now index transactions prevHash validator =
     (let block = \<lparr>Index = index, BlockTimestamp = now, Transactions = transactions,
                   PrevHash = prevHash, BlockHash = [], Validator = validator,
                   BlockSignature = []\<rparr>
      in block\<lparr>BlockHash := calculateHash c block\<rparr>)"

definition SignBlock :: "crypto \<Rightarrow> string \<Rightarrow> Block \<Rightarrow> Block" where
  "SignBlock c privateKey b = b\<lparr>BlockSignature := SignatureToHex (Sign c privateKey (BlockHash b))\<rparr>"

definition TotalFees :: "Block \<Rightarrow> u64" where
  "TotalFees b =
     fold (\<lambda>tx total. if \<not> IsCoinbase tx then total + Fee tx else total) (Transactions b) 0"

section \<open>Ledger state\<close>

text \<open>
  A Go map from addresses to \<open>uint64\<close> is a partial map; reading an absent key gives
  zero, and \<open>m[k] += v\<close> creates the key. Every method of \<open>State\<close> takes the mutex
  of the state on entry and releases it on return, and none calls another method of
  \<open>State\<close> while it holds it (\<open>ApplyBlock\<close> takes no lock itself): in a sequential
  run that mutex is free at every call and is left out of the model. The mutex of
  \<open>Blockchain\<close> is modelled, in the section on the blockchain.
\<close>

record State =
  Balances :: "string \<rightharpoonup> u64"
  Stakes :: "string \<rightharpoonup> u64"

definition read_map :: "(string \<rightharpoonup> u64) \<Rightarrow> string \<Rightarrow> u64" where
  "read_map m k = (case m k of None \<Rightarrow> 0 | Some v \<Rightarrow> v)"

definition NewState :: State where
  "NewState = \<lparr>Balances = Map.empty, Stakes = Map.empty\<rparr>"

definition GetBalance :: "State \<Rightarrow> string \<Rightarrow> u64" where
  "GetBalance s address = read_map (Balances s) address"

definition GetStake :: "State \<Rightarrow> string \<Rightarrow> u64" where
  "GetStake s address = read_map (Stakes s) address"

definition AddBalance :: "string \<Rightarrow> u64 \<Rightarrow> State \<Rightarrow> State" where
  "AddBalance address amount s =
     s\<lparr>Balances := (Balances s)(address \<mapsto> read_map (Balances s) address + amount)\<rparr>"

definition ApplyTransaction :: "Transaction \<Rightarrow> State \<Rightarrow> error option \<times> State" where
  "ApplyTransaction tx s =
     (if IsCoinbase tx
      then (None, s\<lparr>Balances := (Balances s)(To tx \<mapsto> read_map (Balances s) (To tx) + Amount tx)\<rparr>)
      else
        let totalRequired = Amount tx + Fee tx in
        if read_map (Balances s) (From tx) < totalRequired
        then (Some (InsufficientBalance (read_map (Balances s) (From tx)) totalRequired), s)
        else
          let b1 = (Balances s)(From tx \<mapsto> read_map (Balances s) (From tx) - totalRequired);
              b2 = b1(To tx \<mapsto> read_map b1 (To tx) + Amount tx)
          in (None, s\<lparr>Balances := b2\<rparr>))"

text \<open>The loop of \<open>ApplyBlock\<close>: it returns at the first transaction that fails, with
  the state as the earlier transactions left it.\<close>

fun applyTransactions :: "Transaction list \<Rightarrow> State \<Rightarrow> error option \<times> State" where
  "applyTransactions [] s = (None, s)"
| "applyTransactions (tx # txs) s =
     (case ApplyTransaction tx s of
        (Some err, s') \<Rightarrow> (Some (FailedToApplyTransaction (ID tx) err), s')
      | (None, s') \<Rightarrow> applyTransactions txs s')"

definition ApplyBlock :: "Block \<Rightarrow> State \<Rightarrow> error option \<times> State" where
  "ApplyBlock block s =
     (case applyTransactions (Transactions block) s of
        (Some err, s') \<Rightarrow> (Some err, s')
      | (None, s') \<Rightarrow>
          let fees = TotalFees block in
          if fees > 0 then (None, AddBalance (Validator block) fees s') else (None, s'))"

definition Clone :: "State \<Rightarrow> State" where
  "Clone s = \<lparr>Balances = Balances s, Stakes = Stakes s\<rparr>"

section \<open>Blockchain\<close>

text \<open>
  \<open>Blockchain.State\<close> is a pointer to a \<open>State\<close> object that the methods of
  \<open>State\<close> update in place, and \<open>AddBlock\<close> works on a second object made by
  \<open>Clone\<close>. The objects live in a store, a list indexed by reference; allocation
  appends. A reference outside the store stands for a nil pointer.
\<close>

type_synonym heap = "State list"

definition allocState :: "State \<Rightarrow> heap \<Rightarrow> nat \<times> heap" where
  "allocState s h = (length h, h @ [s])"

definition BlockReward :: u64 where
  "BlockReward = 50"

definition MinStakeAmount :: u64 where
  "MinStakeAmount = 1000"

text \<open>
  \<open>sync.RWMutex\<close>, as one caller after another sees it: free, held by a writer, or held
  by a number of readers. The mutex is not reentrant. \<open>Lock\<close> waits until the mutex is
  free and \<open>RLock\<close> waits while a writer holds it; in a sequential run nobody else
  releases the mutex, so a call that has to wait waits for ever, and the result is
  \<open>None\<close>. \<open>Unlock\<close> and \<open>RUnlock\<close> are only reached, through \<open>defer\<close>, after the
  \<open>Lock\<close> or \<open>RLock\<close> of the same method has succeeded.
\<close>

datatype rwmutex = Unlocked | WriteLocked | ReadLocked nat

definition Lock :: "rwmutex \<Rightarrow> rwmutex option" where
  "Lock m = (if m = Unlocked then Some WriteLocked else None)"

definition Unlock :: "rwmutex \<Rightarrow> rwmutex" where
  "Unlock m = (if m = WriteLocked then Unlocked else m)"

fun RLock :: "rwmutex \<Rightarrow> rwmutex option" where
  "RLock Unlocked = Some (ReadLocked 1)"
| "RLock (ReadLocked n) = Some (ReadLocked (Suc n))"
| "RLock WriteLocked = None"

fun RUnlock :: "rwmutex \<Rightarrow> rwmutex" where
  "RUnlock (ReadLocked n) = (if n \<le> 1 then Unlocked else ReadLocked (n - 1))"
| "RUnlock m = m"

record Blockchain =
  Blocks :: "Block list"
  PendingTxs :: "Transaction list"
  State :: nat
  GenesisAddress :: string
  mu :: rwmutex
  txPool :: "string \<rightharpoonup> Transaction"

type_synonym world = "heap \<times> Blockchain"

definition createGenesisBlock :: "crypto \<Rightarrow> string \<Rightarrow> u64 \<Rightarrow> Block" where
  "createGenesisBlock c address initialSupply =
     (let coinbase0 = \<lparr>ID = [], From = [], To = address, Amount = initialSupply, Fee = 0,
                       Timestamp = 0, Signature = [], PublicKey = []\<rparr>;
          coinbase = coinbase0\<lparr>ID := calculateID c coinbase0\<rparr>;
          genesis0 = \<lparr>Index = 0, BlockTimestamp = 0, Transactions = [coinbase],
                      PrevHash = ''0'', BlockHash = [], Validator = ''genesis'',
                      BlockSignature = []\<rparr>;
          genesis1 = genesis0\<lparr>BlockHash := calculateHash c genesis0\<rparr>
      in genesis1\<lparr>BlockSignature := ''genesis''\<rparr>)"

text \<open>\<open>NewBlockchain\<close> takes no lock and ignores the error value of \<open>ApplyBlock\<close>;
  the zero value of the mutex is the free mutex.\<close>

definition NewBlockchain :: "crypto \<Rightarrow> string \<Rightarrow> u64 \<Rightarrow> heap \<Rightarrow> world" where
  "NewBlockchain c genesisAddress initialSupply h =
     (let (st, h1) = allocState NewState h;
          bc0 = \<lparr>Blocks = [], PendingTxs = [], State = st,
                 GenesisAddress = genesisAddress, mu = Unlocked, txPool = Map.empty\<rparr>;
          genesis = createGenesisBlock c genesisAddress initialSupply;
          bc1 = bc0\<lparr>Blocks := Blocks bc0 @ [genesis]\<rparr>;
          (err, s') = ApplyBlock genesis (h1 ! State bc1)
      in (h1[State bc1 := s'], bc1))"

text \<open>\<open>GetLatestBlock\<close> takes the read lock, and releases it when it returns.\<close>

definition GetLatestBlock :: "Blockchain \<Rightarrow> Block option result \<times> Blockchain" where
  "GetLatestBlock bc =
     (case RLock (mu bc) of
        None \<Rightarrow> (Blocked, bc)
      | Some m \<Rightarrow>
          let bc1 = bc\<lparr>mu := m\<rparr>;
              r = (if length (Blocks bc1) = 0 then None else Some (last (Blocks bc1)))
          in (Ok r, bc1\<lparr>mu := RUnlock (mu bc1)\<rparr>))"

text \<open>The loop of \<open>validateBlock\<close> over the transactions of the block.\<close>

fun verifyTransactions :: "crypto \<Rightarrow> Transaction list \<Rightarrow> error option" where
  "verifyTransactions c [] = None"
| "verifyTransactions c (tx # txs) =
     (if \<not> IsCoinbase tx
      then (case VerifyTx c tx of
              Some err \<Rightarrow> Some (InvalidBlockTransaction (ID tx) err)
            | None \<Rightarrow> verifyTransactions c txs)
      else verifyTransactions c txs)"

text \<open>\<open>validateBlock\<close> starts with a call of \<open>GetLatestBlock\<close>.\<close>

definition validateBlock :: "crypto \<Rightarrow> Blockchain \<Rightarrow> Block \<Rightarrow> unit result \<times> Blockchain" where
  "validateBlock c bc block =
     (case GetLatestBlock bc of
        (Blocked, bc1) \<Rightarrow> (Blocked, bc1)
      | (Panic p, bc1) \<Rightarrow> (Panic p, bc1)
      | (Err err, bc1) \<Rightarrow> (Err err, bc1)
      | (Ok None, bc1) \<Rightarrow> (Panic NilPointerDereference, bc1)
      | (Ok (Some latest), bc1) \<Rightarrow>
          (if Index block \<noteq> Index latest + 1
           then Err (InvalidBlockIndex (Index latest + 1) (Index block))
           else if PrevHash block \<noteq> BlockHash latest then Err InvalidPreviousHash
           else if BlockHash block \<noteq> calculateHash c block then Err InvalidBlockHash
           else (case verifyTransactions c (Transactions block) of
                   Some err \<Rightarrow> Err err
                 | None \<Rightarrow> Ok ()),
           bc1))"

definition removeFromPool ::
  "Transaction list \<Rightarrow> (string \<rightharpoonup> Transaction) \<Rightarrow> (string \<rightharpoonup> Transaction)" where
  "removeFromPool txs pool = fold (\<lambda>tx p. p(ID tx := None)) txs pool"

text \<open>
  \<open>AddBlock\<close> takes the write lock, and its deferred \<open>Unlock\<close> runs on every return
  and on a panic. While it holds the lock it calls \<open>validateBlock\<close>.
\<close>

definition AddBlock :: "crypto \<Rightarrow> Block \<Rightarrow> world \<Rightarrow> unit result \<times> world" where
  "AddBlock c block w =
     (let (h, bc0) = w in
      case Lock (mu bc0) of
        None \<Rightarrow> (Blocked, w)
      | Some m \<Rightarrow>
          (case validateBlock c (bc0\<lparr>mu := m\<rparr>) block of
             (Blocked, bc) \<Rightarrow> (Blocked, (h, bc))
           | (Panic p, bc) \<Rightarrow> (Panic p, (h, bc\<lparr>mu := Unlock (mu bc)\<rparr>))
           | (Err err, bc) \<Rightarrow> (Err (InvalidBlock err), (h, bc\<lparr>mu := Unlock (mu bc)\<rparr>))
           | (Ok u, bc) \<Rightarrow>
               if \<not> State bc < length h
               then (Panic NilPointerDereference, (h, bc\<lparr>mu := Unlock (mu bc)\<rparr>))
               else
                 let (tempState, h1) = allocState (Clone (h ! State bc)) h;
                     (r, s') = ApplyBlock block (h1 ! tempState);
                     h2 = h1[tempState := s']
                 in case r of
                      Some err \<Rightarrow>
                        (Err (FailedToApplyBlock err), (h2, bc\<lparr>mu := Unlock (mu bc)\<rparr>))
                    | None \<Rightarrow>
                        (Ok (),
                         (h2, bc\<lparr>Blocks := Blocks bc @ [block],
                                 State := tempState,
                                 txPool := removeFromPool (Transactions block) (txPool bc),
                                 PendingTxs := [],
                                 mu := Unlock (mu bc)\<rparr>))))"

text \<open>\<open>AddTransaction\<close> takes the write lock and calls no method of the blockchain
  while it holds it.\<close>

definition AddTransaction :: "crypto \<Rightarrow> Transaction \<Rightarrow> world \<Rightarrow> unit result \<times> world" where
  "AddTransaction c tx w =
     (let (h, bc0) = w in
      case Lock (mu bc0) of
        None \<Rightarrow> (Blocked, w)
      | Some m \<Rightarrow>
          let bc = bc0\<lparr>mu := m\<rparr> in
          case VerifyTx c tx of
            Some err \<Rightarrow> (Err (InvalidTransaction err), (h, bc\<lparr>mu := Unlock (mu bc)\<rparr>))
          | None \<Rightarrow>
              if txPool bc (ID tx) \<noteq> None
              then (Err TransactionAlreadyExists, (h, bc\<lparr>mu := Unlock (mu bc)\<rparr>))
              else if \<not> State bc < length h
              then (Panic NilPointerDereference, (h, bc\<lparr>mu := Unlock (mu bc)\<rparr>))
              else
                let balance = GetBalance (h ! State bc) (From tx);
                    totalRequired = Amount tx + Fee tx
                in if balance < totalRequired
                   then (Err (InsufficientBalance balance totalRequired),
                         (h, bc\<lparr>mu := Unlock (mu bc)\<rparr>))
                   else (Ok (),
                         (h, bc\<lparr>txPool := (txPool bc)(ID tx \<mapsto> tx),
                                PendingTxs := PendingTxs bc @ [tx],
                                mu := Unlock (mu bc)\<rparr>)))"

text \<open>\<open>CreateBlock\<close> takes the write lock and, while it holds it, calls
  \<open>GetLatestBlock\<close>. It reads the clock inside \<open>NewBlock\<close>; the reading is \<open>now\<close>.\<close>

definition CreateBlock :: "crypto \<Rightarrow> i64 \<Rightarrow> string \<Rightarrow> Blockchain \<Rightarrow> Block result \<times> Blockchain" where
  "CreateBlock c now validator bc0 =
     (case Lock (mu bc0) of
        None \<Rightarrow> (Blocked, bc0)
      | Some m \<Rightarrow>
          (case GetLatestBlock (bc0\<lparr>mu := m\<rparr>) of
             (Blocked, bc) \<Rightarrow> (Blocked, bc)
           | (Panic p, bc) \<Rightarrow> (Panic p, bc\<lparr>mu := Unlock (mu bc)\<rparr>)
           | (Err err, bc) \<Rightarrow> (Err err, bc\<lparr>mu := Unlock (mu bc)\<rparr>)
           | (Ok None, bc) \<Rightarrow> (Panic NilPointerDereference, bc\<lparr>mu := Unlock (mu bc)\<rparr>)
           | (Ok (Some latest), bc) \<Rightarrow>
               let coinbase0 = \<lparr>ID = [], From = [], To = validator, Amount = BlockReward,
                                 Fee = 0, Timestamp = 0, Signature = [], PublicKey = []\<rparr>;
                   coinbase = coinbase0\<lparr>ID := calculateID c coinbase0\<rparr>;
                   transactions = [coinbase] @ PendingTxs bc
               in (Ok (NewBlock c now (Index latest + 1) transactions (BlockHash latest) validator),
                   bc\<lparr>mu := Unlock (mu bc)\<rparr>)))"

text \<open>\<open>Height\<close> takes the read lock.\<close>

definition Height :: "Blockchain \<Rightarrow> u64 result \<times> Blockchain" where
  "Height bc =
     (case RLock (mu bc) of
        None \<Rightarrow> (Blocked, bc)
      | Some m \<Rightarrow>
          let bc1 = bc\<lparr>mu := m\<rparr>
          in (Ok (of_nat (length (Blocks bc1))), bc1\<lparr>mu := RUnlock (mu bc1)\<rparr>))"

text \<open>The state that the blockchain points to.\<close>

definition currentState :: "world \<Rightarrow> State" where
  "currentState w = fst w ! State (snd w)"

text \<open>
  The blockchains that the exported operations can produce: a blockchain is the result
  of \<open>NewBlockchain\<close> or what a call of \<open>AddTransaction\<close> or \<open>AddBlock\<close> that has
  returned leaves behind. A call that never returns has no blockchain after it. Other
  components call the methods of \<open>State\<close> on the state of the blockchain (staking, for
  one), which changes the contents of the state object in place: the rule
  \<open>reach_state\<close> allows any new contents.
\<close>

inductive reachable :: "crypto \<Rightarrow> world \<Rightarrow> bool" for c :: crypto where
  reach_new: "reachable c (NewBlockchain c genesisAddress initialSupply h)"
| reach_tx: "reachable c w \<Longrightarrow> AddTransaction c tx w = (r, w') \<Longrightarrow> r \<noteq> Blocked \<Longrightarrow> reachable c w'"
| reach_block: "reachable c w \<Longrightarrow> AddBlock c block w = (r, w') \<Longrightarrow> r \<noteq> Blocked \<Longrightarrow> reachable c w'"
| reach_state: "reachable c (h, bc) \<Longrightarrow> reachable c (h[State bc := s], bc)"

section \<open>Consensus\<close>

record Validator =
  Address :: string
  ValidatorPublicKey :: string
  ValidatorPrivateKey :: string
  Stake :: u64

definition CanValidate :: "Validator \<Rightarrow> u64 \<Rightarrow> bool" where
  "CanValidate v minStake \<longleftrightarrow> Stake v \<ge> minStake"

record ValidatorSet =
  Validators :: "string \<rightharpoonup> Validator"

text \<open>
  \<open>GetValidators\<close> ranges over a Go map, which visits every key once in an order that
  the language leaves unspecified and that varies between runs. The order of the visit
  is the argument \<open>order\<close>, an enumeration of the keys of the map.
\<close>

definition iteration_order :: "ValidatorSet \<Rightarrow> string list \<Rightarrow> bool" where
  "iteration_order vs order \<longleftrightarrow> distinct order \<and> set order = dom (Validators vs)"

definition GetValidators :: "string list \<Rightarrow> ValidatorSet \<Rightarrow> Validator list" where
  "GetValidators order vs = List.map_filter (Validators vs) order"

record PoS =
  ValidatorSet :: ValidatorSet
  MinStake :: u64
  BlockTime :: i64

text \<open>\<open>generateSeed\<close>: the digest of the hash string followed by the eight bytes of the
  time stamp, most significant first, read as a natural number, most significant byte
  first.\<close>

definition PutUint64 :: "u64 \<Rightarrow> string" where
  "PutUint64 v = map (\<lambda>i. char_of (unat (drop_bit (8 * (7 - i)) v))) [0 ..< 8]"

definition SetBytes :: "string \<Rightarrow> nat" where
  "SetBytes bs = foldl (\<lambda>acc b. acc * 256 + of_char b) 0 bs"

definition generateSeed :: "crypto \<Rightarrow> string \<Rightarrow> i64 \<Rightarrow> nat" where
  "generateSeed c prevBlockHash timestamp = SetBytes (sha256 c (prevBlockHash @ PutUint64 timestamp))"

text \<open>The selection loop; \<open>None\<close> when it ends without returning.\<close>

fun selectLoop :: "int \<Rightarrow> Validator list \<Rightarrow> u64 \<Rightarrow> Validator option" where
  "selectLoop target [] cumulative = None"
| "selectLoop target (v # vs) cumulative =
     (let cumulative' = cumulative + Stake v in
      if target < sint cumulative' then Some v else selectLoop target vs cumulative')"

text \<open>\<open>big.Int.Mod\<close> is the Euclidean modulus, with a result in \<open>[0, |y|)\<close>, and
  panics when the modulus is zero. The total stake is converted to \<open>int64\<close> first.\<close>

definition SelectValidator ::
  "crypto \<Rightarrow> string list \<Rightarrow> PoS \<Rightarrow> string \<Rightarrow> i64 \<Rightarrow> Validator result" where
  "SelectValidator c order pos prevBlockHash timestamp =
     (let validators = GetValidators order (ValidatorSet pos) in
      if length validators = 0 then Err NoValidatorsAvailable
      else
        let eligibleValidators = filter (\<lambda>v. CanValidate v (MinStake pos)) validators in
        if length eligibleValidators = 0 then Err NoEligibleValidators
        else
          let totalStake = fold (\<lambda>v total. total + Stake v) eligibleValidators 0;
              seed = generateSeed c prevBlockHash timestamp
          in if sint totalStake = 0 then Panic DivisionByZero
             else
               let target = int seed mod \<bar>sint totalStake\<bar> in
               case selectLoop target eligibleValidators 0 of
                 Some v \<Rightarrow> Ok v
               | None \<Rightarrow> Ok (last eligibleValidators))"

text \<open>
  Package \<open>time\<close>. Of a \<open>time.Time\<close> the model keeps what \<open>Time.After\<close> reads when
  one of the two instants carries no monotonic clock reading, as is the case here: the
  seconds since the year 1, an \<open>int64\<close>, and the nanoseconds within the second. A
  \<open>time.Duration\<close> is an \<open>int64\<close> of nanoseconds. \<open>time.Unix\<close> is called with zero
  nanoseconds only; its sum wraps around. \<open>Time.Add\<close> splits the duration with Go's
  truncating division, brings the nanoseconds back into range and adds the seconds;
  \<open>addSec\<close> stops at the ends of \<open>int64\<close>. The reading of the clock is the argument
  \<open>now\<close>.
\<close>

record Time =
  sec :: i64
  nsec :: int

definition unixToInternal :: i64 where
  "unixToInternal = 62135596800"

definition Unix :: "i64 \<Rightarrow> Time" where
  "Unix s = \<lparr>sec = s + unixToInternal, nsec = 0\<rparr>"

definition go_quot :: "int \<Rightarrow> int \<Rightarrow> int" where
  "go_quot a b = sgn a * sgn b * (\<bar>a\<bar> div \<bar>b\<bar>)"

definition go_rem :: "int \<Rightarrow> int \<Rightarrow> int" where
  "go_rem a b = a - b * go_quot a b"

definition addSec :: "i64 \<Rightarrow> Time \<Rightarrow> Time" where
  "addSec d t =
     (let sum = sec t + d in
      if (sint sum > sint (sec t)) = (sint d > 0) then t\<lparr>sec := sum\<rparr>
      else if sint d > 0 then t\<lparr>sec := 9223372036854775807\<rparr>
      else t\<lparr>sec := - 9223372036854775807\<rparr>)"

definition Add :: "Time \<Rightarrow> i64 \<Rightarrow> Time" where
  "Add t d =
     (let dsec = go_quot (sint d) 1000000000;
          n = nsec t + go_rem (sint d) 1000000000
      in if n \<ge> 1000000000 then addSec (word_of_int (dsec + 1)) (t\<lparr>nsec := n - 1000000000\<rparr>)
         else if n < 0 then addSec (word_of_int (dsec - 1)) (t\<lparr>nsec := n + 1000000000\<rparr>)
         else addSec (word_of_int dsec) (t\<lparr>nsec := n\<rparr>))"

definition After :: "Time \<Rightarrow> Time \<Rightarrow> bool" where
  "After t u \<longleftrightarrow> sint (sec t) > sint (sec u) \<or> (sec t = sec u \<and> nsec t > nsec u)"

definition GetNextBlockTime :: "PoS \<Rightarrow> i64 \<Rightarrow> Time" where
  "GetNextBlockTime pos lastBlockTime = Add (Unix lastBlockTime) (BlockTime pos)"

definition ShouldCreateBlock :: "PoS \<Rightarrow> Time \<Rightarrow> i64 \<Rightarrow> bool" where
  "ShouldCreateBlock pos now lastBlockTime \<longleftrightarrow> After now (GetNextBlockTime pos lastBlockTime)"

section \<open>Notions used in the statements\<close>

text \<open>What the model asks of the primitives: SHA-256 digests have 32 bytes; a key pair
  has a public key of 32 bytes, and its signatures have 64 bytes and verify.\<close>

definition digest_ok :: "crypto \<Rightarrow> bool" where
  "digest_ok c \<longleftrightarrow> (\<forall>data. length (sha256 c data) = 32)"

definition keys_ok :: "crypto \<Rightarrow> string \<Rightarrow> bool" where
  "keys_ok c sk \<longleftrightarrow>
     length (ed25519_public c sk) = PublicKeySize \<and>
     (\<forall>m. length (ed25519_sign c sk m) = SignatureSize \<and>
          ed25519_verify c (ed25519_public c sk) m (ed25519_sign c sk m))"

text \<open>The spec's reading of \<open>apply_block\<close>: the fold of \<open>apply_transaction\<close> over the
  transactions, in their order.\<close>

definition apply_fold :: "Transaction list \<Rightarrow> State \<Rightarrow> State" where
  "apply_fold txs s = fold (\<lambda>tx st. snd (ApplyTransaction tx st)) txs s"

text \<open>All tokens of a state: the balances and the stakes, as natural numbers.\<close>

definition total_tokens :: "State \<Rightarrow> nat" where
  "total_tokens s =
     (\<Sum>a \<in> dom (Balances s). unat (read_map (Balances s) a)) +
     (\<Sum>a \<in> dom (Stakes s). unat (read_map (Stakes s) a))"

text \<open>A blockchain whose state pointer is valid, that has a latest block and whose mutex
  is free.\<close>

definition wf_world :: "world \<Rightarrow> bool" where
  "wf_world w \<longleftrightarrow>
     State (snd w) < length (fst w) \<and> Blocks (snd w) \<noteq> [] \<and> mu (snd w) = Unlocked"

text \<open>The instant of a \<open>time.Time\<close> in nanoseconds since the Unix epoch.\<close>

definition unix_nanos :: "Time \<Rightarrow> int" where
  "unix_nanos t = (sint (sec t) - 62135596800) * 1000000000 + nsec t"


text \<open>The coinbase transaction that \<open>CreateBlock\<close> builds for a validator.\<close>

definition reward_tx :: "crypto \<Rightarrow> string \<Rightarrow> Transaction" where
  "reward_tx c validator =
     (let coinbase0 = \<lparr>ID = [], From = [], To = validator, Amount = BlockReward, Fee = 0,
                       Timestamp = 0, Signature = [], PublicKey = []\<rparr>
      in coinbase0\<lparr>ID := calculateID c coinbase0\<rparr>)"

section \<open>A stand-in for the primitives\<close>

text \<open>
  The theorems below hold for every choice of the primitives that satisfies their
  hypotheses. To instantiate them at concrete inputs, \<open>demo_crypto\<close> provides one such
  choice: a digest of 32 bytes, public keys of 32 bytes and signatures of 64 bytes that
  verify against the message they were made for. It is used in instances only and
  makes no claim to the security of SHA-256 or Ed25519.
\<close>

definition pad :: "nat \<Rightarrow> string \<Rightarrow> string" where
  "pad n data = take n (data @ replicate n (CHR 0x00))"

definition demo_crypto :: crypto where
  "demo_crypto =
     \<lparr>sha256 = (\<lambda>data. pad 32 (rev data)),
      ed25519_public = (\<lambda>sk. pad 32 sk),
      ed25519_sign = (\<lambda>sk data. pad 64 (pad 32 sk @ rev data)),
      ed25519_verify = (\<lambda>pk data sg. sg = pad 64 (pk @ rev data))\<rparr>"

section \<open>Concrete inputs\<close>

definition ex_transfer :: Transaction where
  "ex_transfer = \<lparr>ID = ''t1'', From = ''alice'', To = ''bob'', Amount = 5, Fee = 1,
                   Timestamp = 0, Signature = [], PublicKey = []\<rparr>"

definition ex_overdraft :: Transaction where
  "ex_overdraft = \<lparr>ID = ''t2'', From = ''alice'', To = ''bob'', Amount = 100, Fee = 0,
                    Timestamp = 0, Signature = [], PublicKey = []\<rparr>"

definition ex_state :: State where
  "ex_state = \<lparr>Balances = [''alice'' \<mapsto> 10], Stakes = Map.empty\<rparr>"

definition ex_block :: "Transaction list \<Rightarrow> Block" where
  "ex_block txs = \<lparr>Index = 1, BlockTimestamp = 0, Transactions = txs, PrevHash = [],
                   BlockHash = [], Validator = ''val'', BlockSignature = []\<rparr>"

definition ex_validator :: "string \<Rightarrow> u64 \<Rightarrow> Validator" where
  "ex_validator a st = \<lparr>Address = a, ValidatorPublicKey = [], ValidatorPrivateKey = [], Stake = st\<rparr>"

definition ex_pos :: "(string \<rightharpoonup> Validator) \<Rightarrow> u64 \<Rightarrow> PoS" where
  "ex_pos vs minStake = \<lparr>ValidatorSet = \<lparr>Validators = vs\<rparr>, MinStake = minStake, BlockTime = 5000000000\<rparr>"

text \<open>The clock reading at a second and nanosecond of Unix time.\<close>

definition ex_time :: "i64 \<Rightarrow> int \<Rightarrow> Time" where
  "ex_time s n = \<lparr>sec = s + unixToInternal, nsec = n\<rparr>"

text \<open>A chain for the instances: the genesis address is the address of the key
  \<open>alice-key\<close> under the stand-in primitives, with an initial supply of 1000000.\<close>

definition demo_address :: "string \<Rightarrow> string" where
  "demo_address sk = PublicKeyToAddress demo_crypto (ed25519_public demo_crypto sk)"

definition demo_chain :: world where
  "demo_chain = NewBlockchain demo_crypto (demo_address ''alice-key'') 1000000 []"

definition demo_transfer :: "string \<Rightarrow> string \<Rightarrow> u64 \<Rightarrow> u64 \<Rightarrow> Transaction" where
  "demo_transfer sk to amount fee =
     SignTx demo_crypto sk (NewTransaction demo_crypto 7 (demo_address sk) to amount fee)"

text \<open>A chain whose genesis address is the literal \<open>carol\<close>, so that the address of
  \<open>alice-key\<close> has no balance.\<close>

definition carol_chain :: world where
  "carol_chain = NewBlockchain demo_crypto ''carol'' 5 []"

section \<open>Library facts\<close>

lemma pad_length [simp]: "length (pad n data) = n"
  by (simp add: pad_def)

lemma demo_digest_ok: "digest_ok demo_crypto"
  by (simp add: digest_ok_def demo_crypto_def)

lemma demo_keys_ok: "keys_ok demo_crypto sk"
  by (simp add: keys_ok_def demo_crypto_def PublicKeySize_def SignatureSize_def)

lemma fromHexChar_hexdigit: "n < 16 \<Longrightarrow> fromHexChar (hexdigit n) = Some n"
  by (auto simp: fromHexChar_def hexdigit_def Let_def)

lemma DecodeString_EncodeToString: "DecodeString (EncodeToString bs) = Some bs"
proof (induction bs)
  case Nil
  show ?case by (simp add: EncodeToString_def)
next
  case (Cons b bs)
  have lt: "(of_char b :: nat) div 16 < 16"
    using nat_of_char_less_256 [of b] by (simp add: less_mult_imp_div_less)
  from Cons show ?case
    by (simp add: EncodeToString_def fromHexChar_hexdigit lt)
qed

lemma length_EncodeToString: "length (EncodeToString bs) = 2 * length bs"
  by (induction bs) (simp_all add: EncodeToString_def)

lemma EncodeToString_inj: "EncodeToString a = EncodeToString b \<Longrightarrow> a = b"
  by (metis DecodeString_EncodeToString option.inject)

lemma address_length: "digest_ok c \<Longrightarrow> length (PublicKeyToAddress c pk) = 40"
  by (simp add: PublicKeyToAddress_def Hash_def length_EncodeToString digest_ok_def)

lemma address_nonempty: "digest_ok c \<Longrightarrow> PublicKeyToAddress c pk \<noteq> []"
  using address_length [of c pk] by auto

lemma dataToSign_update [simp]:
  "dataToSign (tx\<lparr>Signature := s\<rparr>) = dataToSign tx"
  "dataToSign (tx\<lparr>PublicKey := p\<rparr>) = dataToSign tx"
  by (simp_all add: dataToSign_def)

lemma SignTx_fields [simp]:
  "ID (SignTx c sk tx) = ID tx" "From (SignTx c sk tx) = From tx" "To (SignTx c sk tx) = To tx"
  "Amount (SignTx c sk tx) = Amount tx" "Fee (SignTx c sk tx) = Fee tx"
  "Timestamp (SignTx c sk tx) = Timestamp tx"
  by (simp_all add: SignTx_def Let_def)

lemma VerifyTx_SignTx:
  assumes "keys_ok c sk" and "From tx = PublicKeyToAddress c (ed25519_public c sk)"
  shows "VerifyTx c (SignTx c sk tx) = None"
proof -
  have "EncodeToString (ed25519_sign c sk m) \<noteq> []" for m
    using assms(1) length_EncodeToString [of "ed25519_sign c sk m"]
    by (auto simp: keys_ok_def SignatureSize_def)
  then show ?thesis
    using assms
    by (simp add: VerifyTx_def SignTx_def Let_def PublicKeyFromHex_def PublicKeyToHex_def
        SignatureFromHex_def SignatureToHex_def Sign_def Verify_def
        DecodeString_EncodeToString keys_ok_def)
qed

lemma VerifyTx_From:
  "VerifyTx c tx = None \<Longrightarrow> \<exists>pk. From tx = PublicKeyToAddress c pk"
  by (auto simp: VerifyTx_def split: if_splits option.splits)

lemma VerifyTx_not_coinbase: "digest_ok c \<Longrightarrow> VerifyTx c tx = None \<Longrightarrow> \<not> IsCoinbase tx"
  using VerifyTx_From [of c tx] address_nonempty [of c] by (metis IsCoinbase_def)

section \<open>Facts about the ledger state\<close>

lemma apply_fold_Cons [simp]:
  "apply_fold (tx # txs) s = apply_fold txs (snd (ApplyTransaction tx s))"
  by (simp add: apply_fold_def)

lemma apply_fold_Nil [simp]: "apply_fold [] s = s"
  by (simp add: apply_fold_def)

lemma applyTransactions_ok:
  "applyTransactions txs s = (None, s') \<Longrightarrow> s' = apply_fold txs s"
proof (induction txs arbitrary: s)
  case Nil
  then show ?case by simp
next
  case (Cons tx txs)
  then show ?case
    by (cases "ApplyTransaction tx s") (auto split: option.splits)
qed

lemma applyTransactions_fails:
  "applyTransactions txs s = (Some err, s') \<Longrightarrow>
   \<exists>i e. i < length txs \<and> err = FailedToApplyTransaction (ID (txs ! i)) e \<and>
         ApplyTransaction (txs ! i) (apply_fold (take i txs) s) = (Some e, s') \<and>
         (\<forall>j < i. fst (ApplyTransaction (txs ! j) (apply_fold (take j txs) s)) = None)"
proof (induction txs arbitrary: s)
  case Nil
  then show ?case by simp
next
  case (Cons tx txs)
  obtain r s1 where step: "ApplyTransaction tx s = (r, s1)"
    by (cases "ApplyTransaction tx s")
  show ?case
  proof (cases r)
    case (Some e)
    with Cons.prems step have "err = FailedToApplyTransaction (ID tx) e" and "s' = s1"
      by simp_all
    with step Some have
      "0 < length (tx # txs) \<and> err = FailedToApplyTransaction (ID ((tx # txs) ! 0)) e \<and>
       ApplyTransaction ((tx # txs) ! 0) (apply_fold (take 0 (tx # txs)) s) = (Some e, s') \<and>
       (\<forall>j < 0. fst (ApplyTransaction ((tx # txs) ! j) (apply_fold (take j (tx # txs)) s)) = None)"
      by simp
    then show ?thesis by blast
  next
    case None
    with Cons.prems step have "applyTransactions txs s1 = (Some err, s')"
      by simp
    from Cons.IH [OF this] obtain i e where i: "i < length txs"
      and e: "err = FailedToApplyTransaction (ID (txs ! i)) e"
      and f: "ApplyTransaction (txs ! i) (apply_fold (take i txs) s1) = (Some e, s')"
      and b: "\<forall>j < i. fst (ApplyTransaction (txs ! j) (apply_fold (take j txs) s1)) = None"
      by blast
    have before: "fst (ApplyTransaction ((tx # txs) ! j) (apply_fold (take j (tx # txs)) s)) = None"
      if "j < Suc i" for j
    proof (cases j)
      case 0
      then show ?thesis using step None by simp
    next
      case (Suc k)
      with that b step show ?thesis by simp
    qed
    have "Suc i < length (tx # txs) \<and>
          err = FailedToApplyTransaction (ID ((tx # txs) ! Suc i)) e \<and>
          ApplyTransaction ((tx # txs) ! Suc i) (apply_fold (take (Suc i) (tx # txs)) s) = (Some e, s') \<and>
          (\<forall>j < Suc i. fst (ApplyTransaction ((tx # txs) ! j) (apply_fold (take j (tx # txs)) s)) = None)"
      using i e f step before by simp
    then show ?thesis by blast
  qed
qed

lemma ApplyTransaction_Stakes: "Stakes (snd (ApplyTransaction tx s)) = Stakes s"
  by (simp add: ApplyTransaction_def Let_def)

lemma applyTransactions_Stakes: "Stakes (snd (applyTransactions txs s)) = Stakes s"
proof (induction txs arbitrary: s)
  case Nil
  show ?case by simp
next
  case (Cons tx txs)
  show ?case
    using Cons.IH [of "snd (ApplyTransaction tx s)"] ApplyTransaction_Stakes [of tx s]
    by (cases "ApplyTransaction tx s") (auto split: option.splits)
qed

section \<open>Applying a block\<close>

text \<open>
  C5, as stated: when \<open>ApplyBlock\<close> succeeds, the resulting state is the fold of
  \<open>ApplyTransaction\<close> over the transactions of the block, with no other update. This
  fails for a block with a fee: the state \<open>ex_state\<close> gives alice 10, the block has the
  validator val and one transfer of 5 with fee 1; \<open>ApplyBlock\<close> succeeds and credits
  val with the fee, which the fold does not.
\<close>

theorem ApplyBlock_fold_counterexample:
  "fst (ApplyBlock (ex_block [ex_transfer]) ex_state) = None \<and>
   snd (ApplyBlock (ex_block [ex_transfer]) ex_state)
     \<noteq> apply_fold (Transactions (ex_block [ex_transfer])) ex_state"
proof -
  have ok: "fst (ApplyBlock (ex_block [ex_transfer]) ex_state) = None"
    by (simp add: ApplyBlock_def ex_block_def ex_transfer_def ex_state_def ApplyTransaction_def
        IsCoinbase_def read_map_def TotalFees_def Let_def)
  have a: "GetBalance (snd (ApplyBlock (ex_block [ex_transfer]) ex_state)) ''val'' = 1"
    by (simp add: ApplyBlock_def ex_block_def ex_transfer_def ex_state_def ApplyTransaction_def
        IsCoinbase_def read_map_def TotalFees_def Let_def AddBalance_def GetBalance_def)
  have b: "GetBalance (apply_fold (Transactions (ex_block [ex_transfer])) ex_state) ''val'' = 0"
    by (simp add: ex_block_def ex_transfer_def ex_state_def ApplyTransaction_def
        IsCoinbase_def read_map_def Let_def GetBalance_def)
  from a b have
    "snd (ApplyBlock (ex_block [ex_transfer]) ex_state)
       \<noteq> apply_fold (Transactions (ex_block [ex_transfer])) ex_state"
    by auto
  with ok show ?thesis by simp
qed

text \<open>
  C5, amended: when \<open>ApplyBlock\<close> succeeds, the resulting state is the fold of
  \<open>ApplyTransaction\<close> over the transactions of the block in their order, followed, when
  the total of the fees of the block is positive, by the credit of that total to the
  validator of the block; the stakes are never changed. When it fails, it fails at some
  transaction \<open>i\<close> that \<open>ApplyTransaction\<close> refuses in the state that the fold of the
  transactions before it gives, all transactions before \<open>i\<close> having been applied, and
  the error names the id of that transaction.
\<close>

theorem ApplyBlock_fold_then_fees:
  "(ApplyBlock b s = (None, s') \<longrightarrow>
      s' = (if TotalFees b > 0
            then AddBalance (Validator b) (TotalFees b) (apply_fold (Transactions b) s)
            else apply_fold (Transactions b) s) \<and>
      Stakes s' = Stakes s) \<and>
   (ApplyBlock b s = (Some err, s') \<longrightarrow>
      (\<exists>i e. i < length (Transactions b) \<and>
             err = FailedToApplyTransaction (ID (Transactions b ! i)) e \<and>
             ApplyTransaction (Transactions b ! i) (apply_fold (take i (Transactions b)) s)
               = (Some e, s') \<and>
             (\<forall>j < i. fst (ApplyTransaction (Transactions b ! j)
                               (apply_fold (take j (Transactions b)) s)) = None)))"
proof (intro conjI impI)
  assume ok: "ApplyBlock b s = (None, s')"
  obtain r s1 where run: "applyTransactions (Transactions b) s = (r, s1)"
    by (cases "applyTransactions (Transactions b) s")
  from ok run have r: "r = None"
    by (cases r) (simp_all add: ApplyBlock_def)
  with run have s1: "s1 = apply_fold (Transactions b) s"
    using applyTransactions_ok by blast
  from ok run r s1
  show "s' = (if TotalFees b > 0
            then AddBalance (Validator b) (TotalFees b) (apply_fold (Transactions b) s)
            else apply_fold (Transactions b) s)"
    by (auto simp: ApplyBlock_def Let_def split: if_splits)
  have "Stakes s1 = Stakes s"
    using applyTransactions_Stakes [of "Transactions b" s] run by simp
  with ok run r show "Stakes s' = Stakes s"
    by (auto simp: ApplyBlock_def Let_def AddBalance_def split: if_splits)
next
  assume bad: "ApplyBlock b s = (Some err, s')"
  obtain r s1 where run: "applyTransactions (Transactions b) s = (r, s1)"
    by (cases "applyTransactions (Transactions b) s")
  from bad run have "applyTransactions (Transactions b) s = (Some err, s')"
    by (cases r) (auto simp: ApplyBlock_def Let_def split: if_splits)
  then show "\<exists>i e. i < length (Transactions b) \<and>
             err = FailedToApplyTransaction (ID (Transactions b ! i)) e \<and>
             ApplyTransaction (Transactions b ! i) (apply_fold (take i (Transactions b)) s)
               = (Some e, s') \<and>
             (\<forall>j < i. fst (ApplyTransaction (Transactions b ! j)
                               (apply_fold (take j (Transactions b)) s)) = None)"
    by (rule applyTransactions_fails)
qed

theorem ApplyBlock_fold_then_fees_witness:
  "ApplyBlock (ex_block [ex_transfer]) ex_state
     = (None, \<lparr>Balances = [''alice'' \<mapsto> 4, ''bob'' \<mapsto> 5, ''val'' \<mapsto> 1], Stakes = Map.empty\<rparr>) \<and>
   \<lparr>Balances = [''alice'' \<mapsto> 4, ''bob'' \<mapsto> 5, ''val'' \<mapsto> 1], Stakes = Map.empty\<rparr>
     = AddBalance ''val'' 1 (apply_fold [ex_transfer] ex_state) \<and>
   ApplyBlock (ex_block [ex_transfer, ex_overdraft]) ex_state
     = (Some (FailedToApplyTransaction ''t2'' (InsufficientBalance 4 100)),
        \<lparr>Balances = [''alice'' \<mapsto> 4, ''bob'' \<mapsto> 5], Stakes = Map.empty\<rparr>) \<and>
   (\<exists>i e. i < length [ex_transfer, ex_overdraft] \<and>
          FailedToApplyTransaction ''t2'' (InsufficientBalance 4 100)
            = FailedToApplyTransaction (ID ([ex_transfer, ex_overdraft] ! i)) e)"
proof -
  let ?s1 = "\<lparr>Balances = [''alice'' \<mapsto> 4, ''bob'' \<mapsto> 5, ''val'' \<mapsto> 1], Stakes = Map.empty\<rparr>"
  let ?s2 = "\<lparr>Balances = [''alice'' \<mapsto> 4, ''bob'' \<mapsto> (5::u64)], Stakes = Map.empty\<rparr>"
  let ?e = "FailedToApplyTransaction ''t2'' (InsufficientBalance 4 100)"
  have ok: "ApplyBlock (ex_block [ex_transfer]) ex_state = (None, ?s1)"
    by (simp add: ApplyBlock_def ex_block_def ex_transfer_def ex_state_def ApplyTransaction_def
        IsCoinbase_def read_map_def TotalFees_def Let_def AddBalance_def)
  have fees: "TotalFees (ex_block [ex_transfer]) = 1" "Validator (ex_block [ex_transfer]) = ''val''"
    "Transactions (ex_block [ex_transfer]) = [ex_transfer]"
    by (simp_all add: TotalFees_def ex_block_def ex_transfer_def IsCoinbase_def)
  have bad: "ApplyBlock (ex_block [ex_transfer, ex_overdraft]) ex_state = (Some ?e, ?s2)"
    by (simp add: ApplyBlock_def ex_block_def ex_transfer_def ex_overdraft_def ex_state_def
        ApplyTransaction_def IsCoinbase_def read_map_def Let_def)
  have txs: "Transactions (ex_block [ex_transfer, ex_overdraft]) = [ex_transfer, ex_overdraft]"
    by (simp add: ex_block_def)
  have "ApplyBlock (ex_block [ex_transfer]) ex_state = (None, ?s1) \<longrightarrow>
        ?s1 = (if TotalFees (ex_block [ex_transfer]) > 0
               then AddBalance (Validator (ex_block [ex_transfer])) (TotalFees (ex_block [ex_transfer]))
                      (apply_fold (Transactions (ex_block [ex_transfer])) ex_state)
               else apply_fold (Transactions (ex_block [ex_transfer])) ex_state) \<and>
        Stakes ?s1 = Stakes ex_state"
    using ApplyBlock_fold_then_fees [of "ex_block [ex_transfer]" ex_state ?s1 ?e]
    by (rule conjunct1)
  with ok have
    "?s1 = (if TotalFees (ex_block [ex_transfer]) > 0
               then AddBalance (Validator (ex_block [ex_transfer])) (TotalFees (ex_block [ex_transfer]))
                      (apply_fold (Transactions (ex_block [ex_transfer])) ex_state)
               else apply_fold (Transactions (ex_block [ex_transfer])) ex_state)"
    by blast
  also have "\<dots> = AddBalance ''val'' 1 (apply_fold [ex_transfer] ex_state)"
    by (simp only: fees) simp
  finally have one: "?s1 = AddBalance ''val'' 1 (apply_fold [ex_transfer] ex_state)" .
  have "ApplyBlock (ex_block [ex_transfer, ex_overdraft]) ex_state = (Some ?e, ?s2) \<longrightarrow>
      (\<exists>i e. i < length (Transactions (ex_block [ex_transfer, ex_overdraft])) \<and>
             ?e = FailedToApplyTransaction (ID (Transactions (ex_block [ex_transfer, ex_overdraft]) ! i)) e \<and>
             ApplyTransaction (Transactions (ex_block [ex_transfer, ex_overdraft]) ! i)
               (apply_fold (take i (Transactions (ex_block [ex_transfer, ex_overdraft]))) ex_state)
               = (Some e, ?s2) \<and>
             (\<forall>j < i. fst (ApplyTransaction (Transactions (ex_block [ex_transfer, ex_overdraft]) ! j)
                               (apply_fold (take j (Transactions (ex_block [ex_transfer, ex_overdraft]))) ex_state)) = None))"
    using ApplyBlock_fold_then_fees [of "ex_block [ex_transfer, ex_overdraft]" ex_state ?s2 ?e]
    by (rule conjunct2)
  with bad have two: "\<exists>i e. i < length [ex_transfer, ex_overdraft] \<and>
          ?e = FailedToApplyTransaction (ID ([ex_transfer, ex_overdraft] ! i)) e"
    unfolding txs by blast
  from ok one bad two show ?thesis by blast
qed

section \<open>Facts about instants\<close>

lemma sint_of_int_in_range:
  "- 9223372036854775808 \<le> k \<Longrightarrow> k \<le> 9223372036854775807 \<Longrightarrow> sint (word_of_int k :: i64) = k"
  by (simp add: sint_sbintrunc' signed_take_bit_int_eq_self)

lemma sint_add_in_range:
  assumes "- 9223372036854775808 \<le> sint a + sint b" and "sint a + sint b \<le> 9223372036854775807"
  shows "sint (a + b :: i64) = sint a + sint b"
proof -
  have "a + b = word_of_int (sint a + sint b)"
    by simp
  then show ?thesis
    using sint_of_int_in_range [OF assms] by simp
qed

lemma sint_i64_bounds:
  "- 9223372036854775808 \<le> sint (w :: i64)" "sint (w :: i64) \<le> 9223372036854775807"
  using sint_ge [of w] sint_lt [of w] by simp_all

lemma Add_normalises:
  assumes "nsec t = 0"
  shows "Add t d = addSec (word_of_int (sint d div 1000000000)) (t\<lparr>nsec := sint d mod 1000000000\<rparr>)"
proof (cases "0 \<le> sint d")
  case True
  then have "go_quot (sint d) 1000000000 = sint d div 1000000000"
    by (cases "sint d = 0") (simp_all add: go_quot_def)
  moreover from this have "go_rem (sint d) 1000000000 = sint d mod 1000000000"
    by (simp add: go_rem_def minus_mult_div_eq_mod)
  ultimately show ?thesis
    using assms by (simp add: Add_def Let_def)
next
  case False
  let ?a = "sint d"
  let ?q = "- ((- ?a) div 1000000000)"
  let ?r = "?a - 1000000000 * ?q"
  from False have q: "go_quot ?a 1000000000 = ?q"
    by (simp add: go_quot_def)
  then have r: "go_rem ?a 1000000000 = ?r"
    by (simp add: go_rem_def)
  have r_eq: "?r = - ((- ?a) mod 1000000000)"
    by (simp add: minus_mult_div_eq_mod [symmetric])
  show ?thesis
  proof (cases "?r = 0")
    case True
    then have "?a = 1000000000 * ?q"
      by simp
    then have "?a div 1000000000 = ?q" "?a mod 1000000000 = 0"
      by (metis nonzero_mult_div_cancel_left zero_neq_numeral, metis mod_mult_self1_is_0)
    with True show ?thesis
      using assms by (simp add: Add_def Let_def q r)
  next
    case nz: False
    have lt: "?r < 0" and gt: "- 1000000000 < ?r"
      using nz r_eq pos_mod_bound [of 1000000000 "- ?a"] pos_mod_sign [of 1000000000 "- ?a"]
      by linarith+
    have "?a = 1000000000 * (?q - 1) + (?r + 1000000000)"
      by simp
    moreover have "0 \<le> ?r + 1000000000" "?r + 1000000000 < 1000000000"
      using lt gt by linarith+
    ultimately have "?a div 1000000000 = ?q - 1" "?a mod 1000000000 = ?r + 1000000000"
      by (metis int_div_pos_eq, metis int_mod_pos_eq)
    with lt show ?thesis
      using assms by (simp add: Add_def Let_def q r)
  qed
qed

lemma GetNextBlockTime_in_range:
  assumes "sint lastBlockTime + 62135596800 \<le> 9223372036854775807"
    and "- 9223372036854775808 \<le> sint lastBlockTime + 62135596800 + sint (BlockTime pos) div 1000000000"
    and "sint lastBlockTime + 62135596800 + sint (BlockTime pos) div 1000000000 \<le> 9223372036854775807"
  shows "sint (sec (GetNextBlockTime pos lastBlockTime))
           = sint lastBlockTime + 62135596800 + sint (BlockTime pos) div 1000000000"
    and "nsec (GetNextBlockTime pos lastBlockTime) = sint (BlockTime pos) mod 1000000000"
proof -
  let ?d = "sint (BlockTime pos) div 1000000000"
  have c: "sint (62135596800 :: i64) = 62135596800"
    by simp
  have s0: "sint (lastBlockTime + 62135596800) = sint lastBlockTime + 62135596800"
    using sint_add_in_range [of lastBlockTime 62135596800] assms(1) sint_i64_bounds [of lastBlockTime]
    by (simp add: c)
  have dr: "- 9223372037 \<le> ?d" "?d \<le> 9223372037"
    using sint_i64_bounds [of "BlockTime pos"] by linarith+
  then have sd: "sint (word_of_int ?d :: i64) = ?d"
    by (intro sint_of_int_in_range) linarith+
  have sum: "sint (lastBlockTime + 62135596800 + word_of_int ?d)
               = sint lastBlockTime + 62135596800 + ?d"
    using sint_add_in_range [of "lastBlockTime + 62135596800" "word_of_int ?d"] assms(2,3)
    by (simp only: s0 sd)
  have next_eq: "GetNextBlockTime pos lastBlockTime
          = addSec (word_of_int ?d)
              \<lparr>sec = lastBlockTime + 62135596800, nsec = sint (BlockTime pos) mod 1000000000\<rparr>"
    by (simp add: GetNextBlockTime_def Add_normalises Unix_def unixToInternal_def)
  have keep: "(sint (lastBlockTime + 62135596800 + word_of_int ?d) > sint (lastBlockTime + 62135596800))
                = (sint (word_of_int ?d :: i64) > 0)"
    by (simp only: sum s0 sd) linarith
  show "sint (sec (GetNextBlockTime pos lastBlockTime))
           = sint lastBlockTime + 62135596800 + sint (BlockTime pos) div 1000000000"
    using keep sum by (simp add: next_eq addSec_def Let_def)
  show "nsec (GetNextBlockTime pos lastBlockTime) = sint (BlockTime pos) mod 1000000000"
    by (simp add: next_eq addSec_def Let_def)
qed

lemma After_linear:
  assumes "0 \<le> nsec t" "nsec t < 1000000000" "0 \<le> nsec u" "nsec u < 1000000000"
  shows "After t u \<longleftrightarrow> sint (sec t) * 1000000000 + nsec t > sint (sec u) * 1000000000 + nsec u"
proof -
  have eq: "sec t = sec u \<longleftrightarrow> sint (sec t) = sint (sec u)"
    by (rule word_eq_iff_signed)
  show ?thesis
    unfolding After_def eq using assms by arith
qed

lemma ShouldCreateBlock_linear:
  assumes "0 \<le> nsec now" and "nsec now < 1000000000"
    and "sint lastBlockTime + 62135596800 \<le> 9223372036854775807"
    and "- 9223372036854775808 \<le> sint lastBlockTime + 62135596800 + sint (BlockTime pos) div 1000000000"
    and "sint lastBlockTime + 62135596800 + sint (BlockTime pos) div 1000000000 \<le> 9223372036854775807"
  shows "ShouldCreateBlock pos now lastBlockTime
           = (unix_nanos now > sint lastBlockTime * 1000000000 + sint (BlockTime pos))"
proof -
  let ?u = "GetNextBlockTime pos lastBlockTime"
  let ?bt = "sint (BlockTime pos)"
  have s: "sint (sec ?u) = sint lastBlockTime + 62135596800 + ?bt div 1000000000"
    and n: "nsec ?u = ?bt mod 1000000000"
    using GetNextBlockTime_in_range [OF assms(3-5)] by simp_all
  have nr: "0 \<le> nsec ?u" "nsec ?u < 1000000000"
    by (simp_all add: n)
  have "?bt = ?bt div 1000000000 * 1000000000 + ?bt mod 1000000000"
    by simp
  then have lin: "sint (sec ?u) * 1000000000 + nsec ?u
                 = (sint lastBlockTime + 62135596800) * 1000000000 + ?bt"
    unfolding s n by (simp add: algebra_simps)
  show ?thesis
    unfolding ShouldCreateBlock_def After_linear [OF assms(1,2) nr] lin unix_nanos_def
    by (simp add: algebra_simps)
qed

section \<open>Consensus: selection and block time\<close>

text \<open>
  C9, as stated: \<open>ShouldCreateBlock\<close> is true if and only if the clock has reached the
  last block time plus the block time, and in particular at that very instant. With a
  block time of five seconds and a last block at second 100, a clock that reads second
  105 and no nanoseconds has reached that instant, and the function returns false:
  \<open>time.Time.After\<close> is a strict comparison.
\<close>

theorem ShouldCreateBlock_boundary_counterexample:
  "unix_nanos (ex_time 105 0)
     \<ge> sint (100 :: i64) * 1000000000 + sint (BlockTime (ex_pos Map.empty 1000)) \<and>
   \<not> ShouldCreateBlock (ex_pos Map.empty 1000) (ex_time 105 0) 100"
proof -
  have u: "unix_nanos (ex_time 105 0) = 105000000000"
    by (simp add: unix_nanos_def ex_time_def unixToInternal_def)
  have "ShouldCreateBlock (ex_pos Map.empty 1000) (ex_time 105 0) 100
          = (unix_nanos (ex_time 105 0)
               > sint (100 :: i64) * 1000000000 + sint (BlockTime (ex_pos Map.empty 1000)))"
    by (rule ShouldCreateBlock_linear) (simp_all add: ex_time_def ex_pos_def)
  then show ?thesis
    unfolding u by (simp add: ex_pos_def)
qed

text \<open>
  C9, amended: take the clock reading \<open>now\<close> in nanoseconds since the Unix epoch, the
  last block time in seconds and the block time in nanoseconds, and let the last block
  time be such that neither it nor the last block time plus the block time, counted in
  seconds from the year 1 (62135596800 seconds before the epoch), leaves the range of
  \<open>int64\<close>. Then \<open>ShouldCreateBlock\<close> is true if and only if the clock is strictly
  after the last block time plus the block time, compared to the nanosecond; at the
  exact instant it is false.
\<close>

theorem ShouldCreateBlock_strictly_after:
  assumes "0 \<le> nsec now" and "nsec now < 1000000000"
    and "sint lastBlockTime + 62135596800 \<le> 9223372036854775807"
    and "- 9223372036854775808 \<le> sint lastBlockTime + 62135596800 + sint (BlockTime pos) div 1000000000"
    and "sint lastBlockTime + 62135596800 + sint (BlockTime pos) div 1000000000 \<le> 9223372036854775807"
  shows "ShouldCreateBlock pos now lastBlockTime
           = (unix_nanos now > sint lastBlockTime * 1000000000 + sint (BlockTime pos))"
  using assms by (rule ShouldCreateBlock_linear)

theorem ShouldCreateBlock_strictly_after_witness:
  "unix_nanos (ex_time 105 1) = 105000000001 \<and>
   sint (100 :: i64) * 1000000000 + sint (BlockTime (ex_pos Map.empty 1000)) = 105000000000 \<and>
   ShouldCreateBlock (ex_pos Map.empty 1000) (ex_time 105 1) 100"
proof -
  have u: "unix_nanos (ex_time 105 1) = 105000000001"
    by (simp add: unix_nanos_def ex_time_def unixToInternal_def)
  have b: "sint (100 :: i64) * 1000000000 + sint (BlockTime (ex_pos Map.empty 1000)) = 105000000000"
    by (simp add: ex_pos_def)
  have "ShouldCreateBlock (ex_pos Map.empty 1000) (ex_time 105 1) 100
          = (unix_nanos (ex_time 105 1)
               > sint (100 :: i64) * 1000000000 + sint (BlockTime (ex_pos Map.empty 1000)))"
    by (rule ShouldCreateBlock_strictly_after) (simp_all add: ex_time_def ex_pos_def)
  then show ?thesis
    unfolding u b by simp
qed

text \<open>Outside that range the answer is another: for a last block at the largest
  \<open>int64\<close>, \<open>time.Unix\<close> wraps around to an instant long before the year 1, and
  the function returns true for a clock that is far from that last block time.\<close>

lemma ShouldCreateBlock_wraps_at_the_end_of_int64:
  "ShouldCreateBlock (ex_pos Map.empty 1000) (ex_time 105 0) 9223372036854775807 \<and>
   \<not> unix_nanos (ex_time 105 0)
       > sint (9223372036854775807 :: i64) * 1000000000 + sint (BlockTime (ex_pos Map.empty 1000))"
  by (simp add: ShouldCreateBlock_def GetNextBlockTime_def Add_def Unix_def unixToInternal_def
      go_quot_def go_rem_def addSec_def After_def Let_def ex_pos_def ex_time_def unix_nanos_def)

text \<open>
  C8 (a defect of the code): with a minimum stake of zero, a validator whose stake is
  zero is eligible, the total stake is zero, and \<open>SelectValidator\<close> panics in
  \<open>big.Int.Mod\<close> instead of failing with the error.
\<close>

theorem SelectValidator_zero_stake_panics:
  "SelectValidator c [''v''] (ex_pos [''v'' \<mapsto> ex_validator ''v'' 0] 0) prevBlockHash timestamp
     = Panic DivisionByZero"
  by (simp add: SelectValidator_def GetValidators_def List.map_filter_def ex_pos_def
      ex_validator_def CanValidate_def Let_def)

text \<open>Where every stake is below the minimum, the selection does fail with an error:
  the one for no validators when the set is empty, the one for no eligible validators
  otherwise.\<close>

lemma SelectValidator_none_eligible:
  assumes "\<forall>v \<in> set (GetValidators order (ValidatorSet pos)). Stake v < MinStake pos"
  shows "SelectValidator c order pos prevBlockHash timestamp
           = (if GetValidators order (ValidatorSet pos) = [] then Err NoValidatorsAvailable
              else Err NoEligibleValidators)"
proof -
  have "filter (\<lambda>v. CanValidate v (MinStake pos)) (GetValidators order (ValidatorSet pos)) = []"
    using assms by (auto simp: filter_empty_conv CanValidate_def)
  then show ?thesis
    by (simp add: SelectValidator_def Let_def)
qed

text \<open>
  C3 (a defect of the code): the validator that \<open>SelectValidator\<close> returns depends on
  the order in which the Go map is visited. For the set of two validators a and b with
  a stake of 1000 each, the two orders of visit give different validators, whatever the
  hash, the time stamp and the digest function are.
\<close>

theorem SelectValidator_depends_on_iteration_order:
  "iteration_order (ValidatorSet (ex_pos [''a'' \<mapsto> ex_validator ''a'' 1000, ''b'' \<mapsto> ex_validator ''b'' 1000] 1000)) [''a'', ''b''] \<and>
   iteration_order (ValidatorSet (ex_pos [''a'' \<mapsto> ex_validator ''a'' 1000, ''b'' \<mapsto> ex_validator ''b'' 1000] 1000)) [''b'', ''a''] \<and>
   SelectValidator c [''a'', ''b''] (ex_pos [''a'' \<mapsto> ex_validator ''a'' 1000, ''b'' \<mapsto> ex_validator ''b'' 1000] 1000) prevBlockHash timestamp
     \<noteq> SelectValidator c [''b'', ''a''] (ex_pos [''a'' \<mapsto> ex_validator ''a'' 1000, ''b'' \<mapsto> ex_validator ''b'' 1000] 1000) prevBlockHash timestamp"
proof -
  let ?pos = "ex_pos [''a'' \<mapsto> ex_validator ''a'' 1000, ''b'' \<mapsto> ex_validator ''b'' 1000] 1000"
  let ?t = "int (generateSeed c prevBlockHash timestamp) mod 2000"
  have o1: "iteration_order (ValidatorSet ?pos) [''a'', ''b'']"
    by (auto simp: iteration_order_def ex_pos_def)
  have o2: "iteration_order (ValidatorSet ?pos) [''b'', ''a'']"
    by (auto simp: iteration_order_def ex_pos_def)
  have ab: "SelectValidator c [''a'', ''b''] ?pos prevBlockHash timestamp
              = Ok (if ?t < 1000 then ex_validator ''a'' 1000 else ex_validator ''b'' 1000)"
    by (simp add: SelectValidator_def GetValidators_def List.map_filter_def ex_pos_def
        ex_validator_def CanValidate_def Let_def)
  have ba: "SelectValidator c [''b'', ''a''] ?pos prevBlockHash timestamp
              = Ok (if ?t < 1000 then ex_validator ''b'' 1000 else ex_validator ''a'' 1000)"
    by (simp add: SelectValidator_def GetValidators_def List.map_filter_def ex_pos_def
        ex_validator_def CanValidate_def Let_def)
  have "SelectValidator c [''a'', ''b''] ?pos prevBlockHash timestamp
          \<noteq> SelectValidator c [''b'', ''a''] ?pos prevBlockHash timestamp"
    unfolding ab ba by (simp add: ex_validator_def)
  with o1 o2 show ?thesis by blast
qed

section \<open>Reachable blockchains\<close>

lemma TotalFees_genesis: "TotalFees (createGenesisBlock c a n) = 0"
  by (simp add: TotalFees_def createGenesisBlock_def Let_def IsCoinbase_def)

lemma ApplyBlock_genesis:
  "ApplyBlock (createGenesisBlock c a n) NewState
     = (None, \<lparr>Balances = [a \<mapsto> n], Stakes = Map.empty\<rparr>)"
proof -
  have "applyTransactions (Transactions (createGenesisBlock c a n)) NewState
          = (None, \<lparr>Balances = [a \<mapsto> n], Stakes = Map.empty\<rparr>)"
    by (simp add: createGenesisBlock_def Let_def ApplyTransaction_def IsCoinbase_def NewState_def
        read_map_def)
  then show ?thesis
    by (simp add: ApplyBlock_def TotalFees_genesis)
qed

lemma NewBlockchain_eq:
  "NewBlockchain c a n h =
     (h @ [\<lparr>Balances = [a \<mapsto> n], Stakes = Map.empty\<rparr>],
      \<lparr>Blocks = [createGenesisBlock c a n], PendingTxs = [], State = length h,
       GenesisAddress = a, mu = Unlocked, txPool = Map.empty\<rparr>)"
  by (simp add: NewBlockchain_def allocState_def Let_def ApplyBlock_genesis)

lemma wf_NewBlockchain: "wf_world (NewBlockchain c a n h)"
  by (simp add: NewBlockchain_eq wf_world_def)

text \<open>A call of \<open>GetLatestBlock\<close> under the write lock waits for ever, and so does every
  call of \<open>AddBlock\<close> and of \<open>CreateBlock\<close>: on a free mutex they take the write lock
  and reach \<open>GetLatestBlock\<close>, on a mutex that is held they wait for it.\<close>

lemma GetLatestBlock_write_locked:
  "mu bc = WriteLocked \<Longrightarrow> GetLatestBlock bc = (Blocked, bc)"
  by (simp add: GetLatestBlock_def)

lemma validateBlock_write_locked:
  "mu bc = WriteLocked \<Longrightarrow> validateBlock c bc block = (Blocked, bc)"
  by (simp add: validateBlock_def GetLatestBlock_write_locked)

lemma AddBlock_blocks:
  "AddBlock c block (h, bc)
     = (Blocked, (h, if mu bc = Unlocked then bc\<lparr>mu := WriteLocked\<rparr> else bc))"
  by (simp add: AddBlock_def Lock_def validateBlock_write_locked)

lemma CreateBlock_blocks:
  "CreateBlock c now validator bc
     = (Blocked, if mu bc = Unlocked then bc\<lparr>mu := WriteLocked\<rparr> else bc)"
  by (simp add: CreateBlock_def Lock_def GetLatestBlock_write_locked)

lemma unlocked_update: "mu bc = Unlocked \<Longrightarrow> bc\<lparr>mu := Unlocked\<rparr> = bc"
  by (cases bc) simp

lemma AddTransaction_cases:
  assumes "mu bc = Unlocked" and "AddTransaction c tx (h, bc) = (r, w')"
  shows "(r = Ok () \<and> w' = (h, bc\<lparr>txPool := (txPool bc)(ID tx \<mapsto> tx),
                                   PendingTxs := PendingTxs bc @ [tx]\<rparr>))
         \<or> (r \<noteq> Ok () \<and> r \<noteq> Blocked \<and> w' = (h, bc))"
  using assms
  by (cases bc)
     (auto simp: AddTransaction_def Lock_def Unlock_def Let_def split: option.splits if_splits)

lemma reachable_wf: "reachable c w \<Longrightarrow> wf_world w"
proof (induction rule: reachable.induct)
  case (reach_new genesisAddress initialSupply h)
  show ?case by (rule wf_NewBlockchain)
next
  case (reach_tx w tx r w')
  obtain h bc where w: "w = (h, bc)" by (cases w)
  with reach_tx have "mu bc = Unlocked"
    by (simp add: wf_world_def)
  from AddTransaction_cases [OF this, of c tx h r w'] reach_tx w show ?case
    by (auto simp: wf_world_def)
next
  case (reach_block w block r w')
  obtain h bc where w: "w = (h, bc)" by (cases w)
  with reach_block show ?case
    by (simp add: AddBlock_blocks)
next
  case (reach_state h bc s)
  then show ?case
    by (simp add: wf_world_def)
qed

section \<open>Atomicity of AddBlock\<close>


section \<open>Facts about the instances\<close>

lemma reward_tx_fields [simp]:
  "From (reward_tx c v) = []" "To (reward_tx c v) = v" "Amount (reward_tx c v) = 50"
  "Fee (reward_tx c v) = 0" "IsCoinbase (reward_tx c v)"
  by (simp_all add: reward_tx_def Let_def BlockReward_def IsCoinbase_def)

lemma demo_chain_eq:
  "demo_chain =
     ([\<lparr>Balances = [demo_address ''alice-key'' \<mapsto> 1000000], Stakes = Map.empty\<rparr>],
      \<lparr>Blocks = [createGenesisBlock demo_crypto (demo_address ''alice-key'') 1000000],
       PendingTxs = [], State = 0, GenesisAddress = demo_address ''alice-key'',
       mu = Unlocked, txPool = Map.empty\<rparr>)"
  by (simp add: demo_chain_def NewBlockchain_eq)

lemma demo_transfer_fields [simp]:
  "From (demo_transfer sk to amount fee) = demo_address sk"
  "To (demo_transfer sk to amount fee) = to"
  "Amount (demo_transfer sk to amount fee) = amount"
  "Fee (demo_transfer sk to amount fee) = fee"
  by (simp_all add: demo_transfer_def NewTransaction_def Let_def)

lemma demo_address_nonempty [simp]: "demo_address sk \<noteq> []"
  by (simp add: demo_address_def address_nonempty demo_digest_ok)

lemma demo_address_length: "length (demo_address sk) = 40"
  by (simp add: demo_address_def address_length demo_digest_ok)

lemma demo_transfer_verifies [simp]: "VerifyTx demo_crypto (demo_transfer sk to amount fee) = None"
  unfolding demo_transfer_def
  by (rule VerifyTx_SignTx [OF demo_keys_ok])
     (simp add: NewTransaction_def Let_def demo_address_def)

lemma demo_chain_reachable: "reachable demo_crypto demo_chain"
  unfolding demo_chain_def by (rule reach_new)

section \<open>Admission of transactions\<close>

lemma calculateID_length: "digest_ok c \<Longrightarrow> length (calculateID c tx) = 64"
  by (simp add: calculateID_def HashString_def Hash_def length_EncodeToString digest_ok_def)

lemma calculateID_update [simp]:
  "calculateID c (tx\<lparr>ID := i\<rparr>) = calculateID c tx"
  "calculateID c (tx\<lparr>Signature := s\<rparr>) = calculateID c tx"
  "calculateID c (tx\<lparr>PublicKey := p\<rparr>) = calculateID c tx"
  by (simp_all add: calculateID_def)

lemma calculateID_SignTx [simp]: "calculateID c (SignTx c sk tx) = calculateID c tx"
  by (simp add: SignTx_def Let_def)

lemma AddTransaction_ok:
  assumes "VerifyTx c tx = None" and "txPool bc (ID tx) = None" and "State bc < length h"
    and "GetBalance (h ! State bc) (From tx) \<ge> Amount tx + Fee tx"
    and "mu bc = Unlocked"
  shows "AddTransaction c tx (h, bc)
           = (Ok (), (h, bc\<lparr>txPool := (txPool bc)(ID tx \<mapsto> tx),
                             PendingTxs := PendingTxs bc @ [tx]\<rparr>))"
  using assms
  by (cases bc)
     (simp add: AddTransaction_def Lock_def Unlock_def Let_def not_less [symmetric])

text \<open>
  C6: on a reachable blockchain, \<open>AddTransaction\<close> returns OK if and only if the
  transaction verifies, its id is not in the pool, and the balance of the sender in the
  current state is at least amount + fee, the sum being the \<open>uint64\<close> sum of the two
  fields, as in the code. On OK the transaction is inserted into the pool under its id
  and appended to the pending transactions, and nothing else changes; every other
  outcome is an error that leaves the blockchain unchanged. A coinbase transaction
  (empty sender) is always refused, because an address is never empty.
\<close>

theorem AddTransaction_ok_iff:
  assumes "reachable c (h, bc)" and "digest_ok c"
    and "AddTransaction c tx (h, bc) = (r, w')"
  shows "(r = Ok () \<longleftrightarrow>
            VerifyTx c tx = None \<and> txPool bc (ID tx) = None \<and>
            GetBalance (currentState (h, bc)) (From tx) \<ge> Amount tx + Fee tx) \<and>
         (r = Ok () \<longrightarrow>
            w' = (h, bc\<lparr>txPool := (txPool bc)(ID tx \<mapsto> tx),
                         PendingTxs := PendingTxs bc @ [tx]\<rparr>)) \<and>
         (r \<noteq> Ok () \<longrightarrow> (\<exists>e. r = Err e) \<and> w' = (h, bc)) \<and>
         (From tx = [] \<longrightarrow> r \<noteq> Ok ())"
proof -
  from assms(1) have wf: "State bc < length h" and free: "mu bc = Unlocked"
    using reachable_wf [of c "(h, bc)"] by (simp_all add: wf_world_def)
  have iff: "r = Ok () \<longleftrightarrow>
            VerifyTx c tx = None \<and> txPool bc (ID tx) = None \<and>
            GetBalance (currentState (h, bc)) (From tx) \<ge> Amount tx + Fee tx"
    using assms(3) wf free
    by (cases bc)
       (auto simp: AddTransaction_def Lock_def Unlock_def Let_def currentState_def
          split: option.splits if_splits)
  have upd: "r = Ok () \<longrightarrow>
            w' = (h, bc\<lparr>txPool := (txPool bc)(ID tx \<mapsto> tx),
                         PendingTxs := PendingTxs bc @ [tx]\<rparr>)"
    using AddTransaction_cases [OF free assms(3)] by auto
  have same: "r \<noteq> Ok () \<longrightarrow> (\<exists>e. r = Err e) \<and> w' = (h, bc)"
    using assms(3) wf free
    by (cases bc)
       (auto simp: AddTransaction_def Lock_def Unlock_def Let_def split: option.splits if_splits)
  have "VerifyTx c tx = None \<longrightarrow> From tx \<noteq> []"
    using VerifyTx_not_coinbase [OF assms(2), of tx] by (simp add: IsCoinbase_def)
  with iff have coinbase: "From tx = [] \<longrightarrow> r \<noteq> Ok ()"
    by blast
  from iff upd same coinbase show ?thesis
    by blast
qed

theorem AddTransaction_ok_iff_witness:
  "reachable demo_crypto demo_chain \<and> digest_ok demo_crypto \<and>
   AddTransaction demo_crypto (demo_transfer ''alice-key'' ''bob'' 100 1) demo_chain
     = (Ok (),
        (fst demo_chain,
         (snd demo_chain)
           \<lparr>txPool := (txPool (snd demo_chain))
               (ID (demo_transfer ''alice-key'' ''bob'' 100 1) \<mapsto> demo_transfer ''alice-key'' ''bob'' 100 1),
            PendingTxs := PendingTxs (snd demo_chain) @ [demo_transfer ''alice-key'' ''bob'' 100 1]\<rparr>)) \<and>
   AddTransaction demo_crypto (demo_transfer ''alice-key'' ''bob'' 1000000 1) demo_chain
     = (Err (InsufficientBalance 1000000 1000001), demo_chain) \<and>
   (\<exists>e. AddTransaction demo_crypto (reward_tx demo_crypto ''bob'') demo_chain = (Err e, demo_chain))"
proof -
  let ?t = "demo_transfer ''alice-key'' ''bob'' 100 1"
  let ?cb = "reward_tx demo_crypto ''bob''"
  obtain h bc where w: "demo_chain = (h, bc)"
    by (cases demo_chain)
  have reach: "reachable demo_crypto (h, bc)"
    unfolding w [symmetric] demo_chain_def by (rule reach_new)
  have bal: "GetBalance (currentState (h, bc)) (demo_address ''alice-key'') = 1000000"
    and pool: "txPool bc = Map.empty"
    using w by (auto simp: demo_chain_eq currentState_def GetBalance_def read_map_def)
  obtain r1 w1 where r1: "AddTransaction demo_crypto ?t (h, bc) = (r1, w1)"
    by (cases "AddTransaction demo_crypto ?t (h, bc)")
  obtain r3 w3 where r3: "AddTransaction demo_crypto ?cb (h, bc) = (r3, w3)"
    by (cases "AddTransaction demo_crypto ?cb (h, bc)")
  from AddTransaction_ok_iff [OF reach demo_digest_ok r1] bal pool
  have one: "r1 = Ok ()"
    "w1 = (h, bc\<lparr>txPool := (txPool bc)(ID ?t \<mapsto> ?t), PendingTxs := PendingTxs bc @ [?t]\<rparr>)"
    by simp_all
  have two: "AddTransaction demo_crypto (demo_transfer ''alice-key'' ''bob'' 1000000 1) (h, bc)
               = (Err (InsufficientBalance 1000000 1000001), (h, bc))"
    using w
    by (auto simp: demo_chain_eq AddTransaction_def Lock_def Unlock_def Let_def GetBalance_def
        read_map_def)
  from AddTransaction_ok_iff [OF reach demo_digest_ok r3]
  have three: "\<exists>e. r3 = Err e" "w3 = (h, bc)"
    by auto
  show ?thesis
    unfolding w using reach demo_digest_ok r1 one two r3 three by auto
qed

section \<open>The id of a transaction is not checked\<close>

text \<open>
  C10: \<open>VerifyTx\<close> never recomputes the id. For a well-formed key pair, take any
  transaction from the address of the key and replace its id by any string other than
  \<open>calculateID\<close> of its fields; once signed, the signature covers the stored id, the
  transaction verifies, and \<open>AddTransaction\<close> admits it on a reachable blockchain
  where the chosen id is free and the balance suffices. The pool then holds it under
  the chosen id, any other verified transaction with that id is refused as a
  duplicate, and the hash of a block that carries it is computed from the chosen id.
\<close>

theorem VerifyTx_accepts_chosen_id:
  assumes "keys_ok c sk"
    and "From tx = PublicKeyToAddress c (ed25519_public c sk)"
    and "chosen \<noteq> calculateID c tx"
    and "reachable c (h, bc)"
    and "txPool bc chosen = None"
    and "GetBalance (currentState (h, bc)) (From tx) \<ge> Amount tx + Fee tx"
    and "forged = SignTx c sk (tx\<lparr>ID := chosen\<rparr>)"
    and "bc' = bc\<lparr>txPool := (txPool bc)(chosen \<mapsto> forged), PendingTxs := PendingTxs bc @ [forged]\<rparr>"
  shows "ID forged = chosen \<and> ID forged \<noteq> calculateID c forged \<and>
         (\<exists>rest. dataToSign forged = chosen @ rest) \<and>
         VerifyTx c forged = None \<and>
         AddTransaction c forged (h, bc) = (Ok (), (h, bc')) \<and>
         (\<forall>other. VerifyTx c other = None \<and> ID other = chosen \<longrightarrow>
            AddTransaction c other (h, bc') = (Err TransactionAlreadyExists, (h, bc'))) \<and>
         calculateHash c (blk\<lparr>Transactions := [forged]\<rparr>)
           = HashString c (fmt_u64 (Index blk) @ fmt_i64 (BlockTimestamp blk) @ PrevHash blk @
                           Validator blk @ chosen)"
proof -
  from assms(4) have wf: "State bc < length h" and free: "mu bc = Unlocked"
    using reachable_wf [of c "(h, bc)"] by (simp_all add: wf_world_def)
  have id: "ID forged = chosen"
    by (simp add: assms(7))
  have other_id: "ID forged \<noteq> calculateID c forged"
    using assms(3) by (simp add: assms(7))
  have covers: "\<exists>rest. dataToSign forged = chosen @ rest"
    by (simp add: assms(7) SignTx_def Let_def dataToSign_def)
  have verifies: "VerifyTx c forged = None"
    unfolding assms(7) by (rule VerifyTx_SignTx [OF assms(1)]) (simp add: assms(2))
  have "GetBalance (h ! State bc) (From forged) \<ge> Amount forged + Fee forged"
    using assms(6) by (simp add: assms(7) currentState_def)
  with verifies id wf free assms(5)
  have admitted: "AddTransaction c forged (h, bc) = (Ok (), (h, bc'))"
    using AddTransaction_ok [of c forged bc h] by (simp add: assms(8))
  have dup: "\<forall>other. VerifyTx c other = None \<and> ID other = chosen \<longrightarrow>
            AddTransaction c other (h, bc') = (Err TransactionAlreadyExists, (h, bc'))"
    using free
    by (cases bc) (simp add: AddTransaction_def Lock_def Unlock_def assms(8))
  have hash: "calculateHash c (blk\<lparr>Transactions := [forged]\<rparr>)
           = HashString c (fmt_u64 (Index blk) @ fmt_i64 (BlockTimestamp blk) @ PrevHash blk @
                           Validator blk @ chosen)"
    by (simp add: calculateHash_def id)
  from id other_id covers verifies admitted dup hash show ?thesis
    by blast
qed

theorem VerifyTx_accepts_chosen_id_witness:
  "keys_ok demo_crypto ''alice-key'' \<and>
   ''my-own-id'' \<noteq> calculateID demo_crypto (NewTransaction demo_crypto 7 (demo_address ''alice-key'') ''bob'' 100 1) \<and>
   reachable demo_crypto demo_chain \<and>
   VerifyTx demo_crypto
     (SignTx demo_crypto ''alice-key''
        ((NewTransaction demo_crypto 7 (demo_address ''alice-key'') ''bob'' 100 1)\<lparr>ID := ''my-own-id''\<rparr>))
     = None \<and>
   fst (AddTransaction demo_crypto
     (SignTx demo_crypto ''alice-key''
        ((NewTransaction demo_crypto 7 (demo_address ''alice-key'') ''bob'' 100 1)\<lparr>ID := ''my-own-id''\<rparr>))
     demo_chain) = Ok ()"
proof -
  let ?tx = "NewTransaction demo_crypto 7 (demo_address ''alice-key'') ''bob'' 100 1"
  let ?forged = "SignTx demo_crypto ''alice-key'' (?tx\<lparr>ID := ''my-own-id''\<rparr>)"
  obtain h bc where w: "demo_chain = (h, bc)"
    by (cases demo_chain)
  have reach: "reachable demo_crypto (h, bc)"
    using demo_chain_reachable by (simp add: w)
  have sender: "From ?tx = PublicKeyToAddress demo_crypto (ed25519_public demo_crypto ''alice-key'')"
    by (simp add: NewTransaction_def Let_def demo_address_def)
  have "length (calculateID demo_crypto ?tx) = 64"
    by (rule calculateID_length [OF demo_digest_ok])
  moreover have "length ''my-own-id'' \<noteq> 64"
    by simp
  ultimately have chosen: "''my-own-id'' \<noteq> calculateID demo_crypto ?tx"
    by metis
  have pool: "txPool bc ''my-own-id'' = None"
    using w by (auto simp: demo_chain_eq)
  have bal: "GetBalance (currentState (h, bc)) (From ?tx) \<ge> Amount ?tx + Fee ?tx"
    using w
    by (auto simp: demo_chain_eq currentState_def GetBalance_def read_map_def NewTransaction_def
        Let_def)
  from VerifyTx_accepts_chosen_id [OF demo_keys_ok sender chosen reach pool bal refl refl]
  have "VerifyTx demo_crypto ?forged = None"
    and "fst (AddTransaction demo_crypto ?forged (h, bc)) = Ok ()"
    by simp_all
  with chosen show ?thesis
    using demo_keys_ok demo_chain_reachable by (simp add: w)
qed

section \<open>Wrap-around of amount + fee\<close>

lemma sum_dom_extend:
  assumes "finite A" and "dom m \<subseteq> A"
  shows "(\<Sum>a \<in> dom m. unat (read_map m a)) = (\<Sum>a \<in> A. unat (read_map m a))"
proof (rule sum.mono_neutral_left)
  show "finite A" by (rule assms(1))
  show "dom m \<subseteq> A" by (rule assms(2))
  show "\<forall>i \<in> A - dom m. unat (read_map m i) = 0"
    by (auto simp: read_map_def split: option.splits)
qed

lemma sum_credit:
  assumes "finite (dom m)" and "f \<noteq> t" and "unat (read_map m t) + unat amt < 2 ^ 64"
  shows "(\<Sum>a \<in> dom (m(f \<mapsto> read_map m f, t \<mapsto> read_map m t + amt)).
            unat (read_map (m(f \<mapsto> read_map m f, t \<mapsto> read_map m t + amt)) a))
         = (\<Sum>a \<in> dom m. unat (read_map m a)) + unat (amt :: u64)"
proof -
  let ?m' = "m(f \<mapsto> read_map m f, t \<mapsto> read_map m t + amt)"
  let ?A = "insert t (insert f (dom m))"
  have fin: "finite ?A" and tA: "t \<in> ?A"
    using assms(1) by simp_all
  have new_t: "unat (read_map ?m' t) = unat (read_map m t) + unat amt"
    using assms(3) by (simp add: read_map_def unat_word_ariths)
  have rest: "(\<Sum>a \<in> ?A - {t}. unat (read_map ?m' a)) = (\<Sum>a \<in> ?A - {t}. unat (read_map m a))"
    by (rule sum.cong) (auto simp: read_map_def)
  have "(\<Sum>a \<in> dom ?m'. unat (read_map ?m' a)) = (\<Sum>a \<in> ?A. unat (read_map ?m' a))"
    by (rule sum_dom_extend [OF fin]) auto
  also have "\<dots> = unat (read_map ?m' t) + (\<Sum>a \<in> ?A - {t}. unat (read_map ?m' a))"
    by (rule sum.remove [OF fin tA])
  also have "\<dots> = unat amt + (unat (read_map m t) + (\<Sum>a \<in> ?A - {t}. unat (read_map m a)))"
    by (simp only: new_t rest)
  also have "unat (read_map m t) + (\<Sum>a \<in> ?A - {t}. unat (read_map m a))
               = (\<Sum>a \<in> ?A. unat (read_map m a))"
    by (rule sum.remove [OF fin tA, symmetric])
  also have "(\<Sum>a \<in> ?A. unat (read_map m a)) = (\<Sum>a \<in> dom m. unat (read_map m a))"
    by (rule sum_dom_extend [OF fin, symmetric]) auto
  finally show ?thesis by (metis add.commute)
qed

text \<open>
  C7: the required total is the \<open>uint64\<close> sum of amount and fee. For a transaction
  that is no coinbase and whose amount is not zero but whose amount + fee wraps to zero
  (amount \<open>2\<^sup>6\<^sup>4 - 1\<close> and fee 1, for one), \<open>AddTransaction\<close>, called on a
  blockchain whose mutex is free, admits the verified transaction whatever the balance
  of the sender is, zero included, and
  \<open>ApplyTransaction\<close> succeeds, leaves the balance of the sender as it was and
  credits the recipient with the amount: the tokens of the state grow by the amount.
\<close>

theorem wrapped_total_creates_tokens:
  assumes "From tx \<noteq> []" and "To tx \<noteq> From tx"
    and "Amount tx \<noteq> 0" and "Amount tx + Fee tx = 0"
    and "VerifyTx c tx = None" and "txPool bc (ID tx) = None" and "State bc < length h"
    and "finite (dom (Balances s))"
    and "unat (GetBalance s (To tx)) + unat (Amount tx) < 2 ^ 64"
    and "mu bc = Unlocked"
  shows "unat (Amount tx) + unat (Fee tx) = 2 ^ 64 \<and>
         fst (AddTransaction c tx (h, bc)) = Ok () \<and>
         fst (ApplyTransaction tx s) = None \<and>
         GetBalance (snd (ApplyTransaction tx s)) (From tx) = GetBalance s (From tx) \<and>
         GetBalance (snd (ApplyTransaction tx s)) (To tx) = GetBalance s (To tx) + Amount tx \<and>
         total_tokens (snd (ApplyTransaction tx s)) = total_tokens s + unat (Amount tx)"
proof -
  have "unat (Amount tx + Fee tx) = (unat (Amount tx) + unat (Fee tx)) mod 2 ^ 64"
    by (simp add: unat_word_ariths)
  with assms(4) have m: "(unat (Amount tx) + unat (Fee tx)) mod 2 ^ 64 = 0"
    by simp
  have pos: "0 < unat (Amount tx)"
    using assms(3) by (simp add: unat_gt_0)
  have "unat (Amount tx) < 2 ^ 64" "unat (Fee tx) < 2 ^ 64"
    using unsigned_less [of "Amount tx"] unsigned_less [of "Fee tx"] by simp_all
  with m pos have wraps: "unat (Amount tx) + unat (Fee tx) = 2 ^ 64"
    by (auto simp: mod_eq_0_iff_dvd elim!: dvdE)
  have admitted: "fst (AddTransaction c tx (h, bc)) = Ok ()"
    using AddTransaction_ok [of c tx bc h] assms(4-7,10) by simp
  have ap: "ApplyTransaction tx s
          = (None, s\<lparr>Balances := (Balances s)(From tx \<mapsto> read_map (Balances s) (From tx),
                                              To tx \<mapsto> read_map (Balances s) (To tx) + Amount tx)\<rparr>)"
    using assms(1,2,4) by (simp add: ApplyTransaction_def IsCoinbase_def Let_def read_map_def)
  have from_same: "GetBalance (snd (ApplyTransaction tx s)) (From tx) = GetBalance s (From tx)"
    using assms(2) by (simp add: ap GetBalance_def read_map_def)
  have to_more: "GetBalance (snd (ApplyTransaction tx s)) (To tx) = GetBalance s (To tx) + Amount tx"
    by (simp add: ap GetBalance_def read_map_def)
  have "total_tokens (snd (ApplyTransaction tx s)) = total_tokens s + unat (Amount tx)"
    using sum_credit [OF assms(8), of "From tx" "To tx" "Amount tx"] assms(2,9)
    by (simp add: ap total_tokens_def GetBalance_def)
  with wraps admitted ap from_same to_more show ?thesis
    by simp
qed

theorem wrapped_total_creates_tokens_witness:
  "GetBalance (currentState carol_chain) (demo_address ''alice-key'') = 0 \<and>
   VerifyTx demo_crypto (demo_transfer ''alice-key'' ''bob'' 18446744073709551615 1) = None \<and>
   fst (AddTransaction demo_crypto (demo_transfer ''alice-key'' ''bob'' 18446744073709551615 1)
          carol_chain) = Ok () \<and>
   fst (ApplyTransaction (demo_transfer ''alice-key'' ''bob'' 18446744073709551615 1)
          (currentState carol_chain)) = None \<and>
   total_tokens (currentState carol_chain) = 5 \<and>
   total_tokens (snd (ApplyTransaction (demo_transfer ''alice-key'' ''bob'' 18446744073709551615 1)
          (currentState carol_chain))) = 5 + 18446744073709551615"
proof -
  let ?tx = "demo_transfer ''alice-key'' ''bob'' 18446744073709551615 1"
  let ?s = "\<lparr>Balances = [''carol'' \<mapsto> (5::u64)], Stakes = Map.empty\<rparr>"
  let ?bc = "\<lparr>Blocks = [createGenesisBlock demo_crypto ''carol'' 5],
       PendingTxs = [], State = 0, GenesisAddress = ''carol'', mu = Unlocked,
       txPool = Map.empty\<rparr>"
  have w: "carol_chain = ([?s], ?bc)"
    by (simp add: carol_chain_def NewBlockchain_eq)
  have cur: "currentState carol_chain = ?s"
    by (simp add: w currentState_def)
  have ne: "demo_address ''alice-key'' \<noteq> ''carol''" "''bob'' \<noteq> demo_address ''alice-key''"
  proof -
    have "length ''carol'' \<noteq> 40" and "length ''bob'' \<noteq> 40"
      by simp_all
    then show "demo_address ''alice-key'' \<noteq> ''carol''" "''bob'' \<noteq> demo_address ''alice-key''"
      using demo_address_length [of "''alice-key''"] by metis+
  qed
  have zero: "GetBalance ?s (demo_address ''alice-key'') = 0"
    using ne by (simp add: GetBalance_def read_map_def)
  have total: "total_tokens ?s = 5"
    by (simp add: total_tokens_def read_map_def)
  have h1: "From ?tx \<noteq> []" and h2: "To ?tx \<noteq> From ?tx" and h3: "Amount ?tx \<noteq> 0"
    and h4: "Amount ?tx + Fee ?tx = 0"
    using ne by simp_all
  have h6: "txPool ?bc (ID ?tx) = None" and h7: "State ?bc < length [?s]"
    and h8: "finite (dom (Balances ?s))" and h10: "mu ?bc = Unlocked"
    by simp_all
  have h9: "unat (GetBalance ?s (To ?tx)) + unat (Amount ?tx) < 2 ^ 64"
    by (simp add: GetBalance_def read_map_def)
  from wrapped_total_creates_tokens [OF h1 h2 h3 h4 demo_transfer_verifies h6 h7 h8 h9 h10]
  have "fst (AddTransaction demo_crypto ?tx ([?s], ?bc)) = Ok ()"
    and "fst (ApplyTransaction ?tx ?s) = None"
    and "total_tokens (snd (ApplyTransaction ?tx ?s)) = total_tokens ?s + unat (Amount ?tx)"
    by simp_all
  with zero total show ?thesis
    unfolding cur unfolding w by simp
qed

section \<open>A transfer, end to end\<close>

text \<open>
  C4 (a defect of the code): from the genesis chain that gives alice 1000000, the signed
  transfer of 100 with fee 1 from alice to bob is admitted and is the one pending
  transaction, as the claim says. The next step never ends: \<open>CreateBlock\<close> takes the
  write lock of the blockchain and then calls \<open>GetLatestBlock\<close>, which waits for the
  read lock of the same mutex, and \<open>AddBlock\<close> does the same through
  \<open>validateBlock\<close>. No block is created and none is committed: the balance of alice
  stays 1000000, that of bob 0, the height 1, and the transfer stays pending.
\<close>

theorem transfer_scenario_stops_at_CreateBlock:
  assumes "keys_ok c sk"
    and "alice = PublicKeyToAddress c (ed25519_public c sk)"
    and "bob \<noteq> alice"
    and "tx = SignTx c sk (NewTransaction c t0 alice bob 100 1)"
  shows "\<exists>w1.
           AddTransaction c tx (NewBlockchain c alice 1000000 h0) = (Ok (), w1) \<and>
           PendingTxs (snd w1) = [tx] \<and>
           fst (CreateBlock c now alice (snd w1)) = Blocked \<and>
           fst (AddBlock c block w1) = Blocked \<and>
           GetBalance (currentState w1) alice = 1000000 \<and>
           GetBalance (currentState w1) bob = 0 \<and>
           fst (Height (snd w1)) = Ok 1"
proof -
  let ?s0 = "\<lparr>Balances = [alice \<mapsto> 1000000], Stakes = Map.empty\<rparr>"
  let ?bc0 = "\<lparr>Blocks = [createGenesisBlock c alice 1000000], PendingTxs = [],
               State = length h0, GenesisAddress = alice, mu = Unlocked, txPool = Map.empty\<rparr>"
  let ?bc1 = "?bc0\<lparr>txPool := (txPool ?bc0)(ID tx \<mapsto> tx), PendingTxs := PendingTxs ?bc0 @ [tx]\<rparr>"
  have fields: "From tx = alice" "To tx = bob" "Amount tx = 100" "Fee tx = 1"
    by (simp_all add: assms(4) NewTransaction_def Let_def)
  have verifies: "VerifyTx c tx = None"
    unfolding assms(4)
    by (rule VerifyTx_SignTx [OF assms(1)]) (simp add: NewTransaction_def Let_def assms(2))
  have w0: "NewBlockchain c alice 1000000 h0 = (h0 @ [?s0], ?bc0)"
    by (rule NewBlockchain_eq)
  have step1: "AddTransaction c tx (h0 @ [?s0], ?bc0) = (Ok (), (h0 @ [?s0], ?bc1))"
    by (rule AddTransaction_ok) (simp_all add: verifies fields GetBalance_def read_map_def)
  have stuck: "fst (CreateBlock c now alice ?bc1) = Blocked"
    "fst (AddBlock c block (h0 @ [?s0], ?bc1)) = Blocked"
    by (simp_all add: CreateBlock_blocks AddBlock_blocks)
  have rest: "GetBalance (currentState (h0 @ [?s0], ?bc1)) alice = 1000000"
    "GetBalance (currentState (h0 @ [?s0], ?bc1)) bob = 0"
    "fst (Height ?bc1) = Ok 1" "PendingTxs ?bc1 = [tx]"
    using assms(3) by (simp_all add: currentState_def GetBalance_def read_map_def Height_def)
  have "AddTransaction c tx (NewBlockchain c alice 1000000 h0) = (Ok (), (h0 @ [?s0], ?bc1)) \<and>
        PendingTxs (snd (h0 @ [?s0], ?bc1)) = [tx] \<and>
        fst (CreateBlock c now alice (snd (h0 @ [?s0], ?bc1))) = Blocked \<and>
        fst (AddBlock c block (h0 @ [?s0], ?bc1)) = Blocked \<and>
        GetBalance (currentState (h0 @ [?s0], ?bc1)) alice = 1000000 \<and>
        GetBalance (currentState (h0 @ [?s0], ?bc1)) bob = 0 \<and>
        fst (Height (snd (h0 @ [?s0], ?bc1))) = Ok 1"
    using step1 stuck rest by (simp add: w0)
  then show ?thesis by blast
qed

theorem transfer_scenario_stops_at_CreateBlock_witness:
  "keys_ok demo_crypto ''alice-key'' \<and> ''bob'' \<noteq> demo_address ''alice-key'' \<and>
   (\<exists>w1.
      AddTransaction demo_crypto (demo_transfer ''alice-key'' ''bob'' 100 1) demo_chain = (Ok (), w1) \<and>
      PendingTxs (snd w1) = [demo_transfer ''alice-key'' ''bob'' 100 1] \<and>
      fst (CreateBlock demo_crypto 12 (demo_address ''alice-key'') (snd w1)) = Blocked \<and>
      fst (AddBlock demo_crypto
             (NewBlock demo_crypto 12 1 (PendingTxs (snd w1)) [] (demo_address ''alice-key'')) w1)
        = Blocked \<and>
      GetBalance (currentState w1) (demo_address ''alice-key'') = 1000000 \<and>
      GetBalance (currentState w1) ''bob'' = 0 \<and>
      fst (Height (snd w1)) = Ok 1)"
proof -
  have "length ''bob'' \<noteq> 40"
    by simp
  then have ne: "''bob'' \<noteq> demo_address ''alice-key''"
    using demo_address_length [of "''alice-key''"] by metis
  have "\<exists>w1.
      AddTransaction demo_crypto (demo_transfer ''alice-key'' ''bob'' 100 1)
        (NewBlockchain demo_crypto (demo_address ''alice-key'') 1000000 []) = (Ok (), w1) \<and>
      PendingTxs (snd w1) = [demo_transfer ''alice-key'' ''bob'' 100 1] \<and>
      fst (CreateBlock demo_crypto 12 (demo_address ''alice-key'') (snd w1)) = Blocked \<and>
      fst (AddBlock demo_crypto
             (NewBlock demo_crypto 12 1 [demo_transfer ''alice-key'' ''bob'' 100 1] []
                (demo_address ''alice-key'')) w1)
        = Blocked \<and>
      GetBalance (currentState w1) (demo_address ''alice-key'') = 1000000 \<and>
      GetBalance (currentState w1) ''bob'' = 0 \<and>
      fst (Height (snd w1)) = Ok 1"
    by (rule transfer_scenario_stops_at_CreateBlock [OF demo_keys_ok _ ne, where ?t0.0 = 7])
       (simp_all add: demo_address_def demo_transfer_def)
  then obtain w1 where
    "AddTransaction demo_crypto (demo_transfer ''alice-key'' ''bob'' 100 1) demo_chain = (Ok (), w1)"
    "PendingTxs (snd w1) = [demo_transfer ''alice-key'' ''bob'' 100 1]"
    "fst (CreateBlock demo_crypto 12 (demo_address ''alice-key'') (snd w1)) = Blocked"
    "fst (AddBlock demo_crypto
             (NewBlock demo_crypto 12 1 [demo_transfer ''alice-key'' ''bob'' 100 1] []
                (demo_address ''alice-key'')) w1) = Blocked"
    "GetBalance (currentState w1) (demo_address ''alice-key'') = 1000000"
    "GetBalance (currentState w1) ''bob'' = 0"
    "fst (Height (snd w1)) = Ok 1"
    unfolding demo_chain_def by blast
  with ne demo_keys_ok show ?thesis
    by auto
qed

section \<open>The pool and the pending transactions\<close>






end
